theory Spec2Isabelle
  imports Main "HOL-Library.Stream" "HOL-Library.Sublist"
begin

section \<open>Text\<close>

text \<open>
  A Python \<open>str\<close> is modelled as a HOL \<open>string\<close>. A HOL character stands for a code point
  below 256; text holding larger code points is outside the model. On that range
  \<open>str.strip()\<close> removes the characters listed in \<open>whitespace\<close> and \<open>str.lower()\<close> maps
  \<open>A\<close>..\<open>Z\<close> and the upper-case letters of the Latin-1 block to their lower-case forms.
\<close>

definition whitespace :: "char list" where
  "whitespace = [CHR 0x09, CHR 0x0A, CHR 0x0B, CHR 0x0C, CHR 0x0D, CHR 0x1C, CHR 0x1D,
     CHR 0x1E, CHR 0x1F, CHR 0x20, CHR 0x85, CHR 0xA0]"

definition is_space :: "char \<Rightarrow> bool" where
  "is_space c = (c \<in> set whitespace)"

definition strip :: "string \<Rightarrow> string" where
  "strip s = rev (dropWhile is_space (rev (dropWhile is_space s)))"

definition upper_letters :: "char list" where
  "upper_letters = ''ABCDEFGHIJKLMNOPQRSTUVWXYZ'' @
     [CHR 0xC0, CHR 0xC1, CHR 0xC2, CHR 0xC3, CHR 0xC4, CHR 0xC5, CHR 0xC6, CHR 0xC7,
      CHR 0xC8, CHR 0xC9, CHR 0xCA, CHR 0xCB, CHR 0xCC, CHR 0xCD, CHR 0xCE, CHR 0xCF,
      CHR 0xD0, CHR 0xD1, CHR 0xD2, CHR 0xD3, CHR 0xD4, CHR 0xD5, CHR 0xD6,
      CHR 0xD8, CHR 0xD9, CHR 0xDA, CHR 0xDB, CHR 0xDC, CHR 0xDD, CHR 0xDE]"

definition lower_letters :: "char list" where
  "lower_letters = ''abcdefghijklmnopqrstuvwxyz'' @
     [CHR 0xE0, CHR 0xE1, CHR 0xE2, CHR 0xE3, CHR 0xE4, CHR 0xE5, CHR 0xE6, CHR 0xE7,
      CHR 0xE8, CHR 0xE9, CHR 0xEA, CHR 0xEB, CHR 0xEC, CHR 0xED, CHR 0xEE, CHR 0xEF,
      CHR 0xF0, CHR 0xF1, CHR 0xF2, CHR 0xF3, CHR 0xF4, CHR 0xF5, CHR 0xF6,
      CHR 0xF8, CHR 0xF9, CHR 0xFA, CHR 0xFB, CHR 0xFC, CHR 0xFD, CHR 0xFE]"

definition lower_char :: "char \<Rightarrow> char" where
  "lower_char c = (case map_of (zip upper_letters lower_letters) c of
                     Some l \<Rightarrow> l
                   | None \<Rightarrow> c)"

definition lower :: "string \<Rightarrow> string" where
  "lower s = map lower_char s"

text \<open>\<open>s.split(",")\<close>: the pieces between the commas; never an empty list.\<close>

fun split_from :: "char \<Rightarrow> string \<Rightarrow> string \<Rightarrow> string list" where
  "split_from sep cur [] = [cur]"
| "split_from sep cur (c # cs) =
     (if c = sep then cur # split_from sep [] cs else split_from sep (cur @ [c]) cs)"

definition split :: "char \<Rightarrow> string \<Rightarrow> string list" where
  "split sep s = split_from sep [] s"

definition startswith_hash :: "string \<Rightarrow> bool" where
  "startswith_hash s = (case s of [] \<Rightarrow> False | c # _ \<Rightarrow> c = CHR ''#'')"

definition VALID_NOTIFY :: "string set" where
  "VALID_NOTIFY = {''all'', ''delegates'', ''none''}"

section \<open>The world of one run\<close>

text \<open>
  What the program reads from the terminal is a stream of events: a line typed by the
  user, an interrupt (\<open>KeyboardInterrupt\<close>) or the end of the input (\<open>EOFError\<close>).
  What it prints is a list of events; each constructor stands for a \<open>print\<close> of the
  source (\<open>NotifyHelp\<close> for the two lines of help before the notification prompt) and
  carries the values that the printed text interpolates.
\<close>

datatype input_event = Line string | Interrupt | Eof

datatype prompt = AskEmail | AskName | AskDescription | AskActorsPath | AskNotify

datatype json =
    JNull
  | JBool bool
  | JInt int
  | JStr string
  | JArr "json list"
  | JObj "(string \<times> json) list"

datatype http_method = PUT | POST

record request =
  meth :: http_method
  url :: string
  headers :: "(string \<times> string) list"
  params :: "(string \<times> string) list"
  body :: json

record response =
  status_code :: int
  content :: string
  rtext :: string
  decoded :: "json option"

datatype http_result = Resp response | NetError string

datatype exn =
    EOFError
  | TypeError
  | KeyError
  | JSONDecodeError
  | RequestException string
  | CreateFailed int string
  | NoMailboxId json
  | SetAccessFailed string "string list" string int string

datatype die_msg =
    Interrupted
  | EnvMissing
  | BadEmail
  | EmptyName
  | FileNotFound string
  | NoValidRows

datatype stop = Died die_msg int | Uncaught exn

datatype event =
    Prompted prompt
  | Stderr die_msg
  | WarnEnvNotify string
  | HeaderCreate
  | MailboxCreated string
  | HeaderAssign
  | WarnSkipColumns nat
  | WarnSkipNoRoles nat
  | WarnAddSender
  | NotifyHelp
  | NotifyInvalid
  | AssignOk string "string list" string
  | AssignFail string exn
  | HeaderSummary
  | Tally nat nat
  | Closing

record world =
  stdin :: "input_event stream"
  out :: "event list"
  sent :: "request list"

definition emit :: "event \<Rightarrow> world \<Rightarrow> world" where
  "emit e w = w\<lparr>out := out w @ [e]\<rparr>"

text \<open>Exit status of the process: \<open>sys.exit(code)\<close>, or 1 after an uncaught exception.\<close>

fun exit_status :: "stop + unit \<Rightarrow> int" where
  "exit_status (Inl (Died m code)) = code"
| "exit_status (Inl (Uncaught e)) = 1"
| "exit_status (Inr u) = 0"

section \<open>Roles\<close>

fun dedup_loop :: "string set \<Rightarrow> string list \<Rightarrow> string list \<Rightarrow> string list" where
  "dedup_loop seen res [] = res"
| "dedup_loop seen res (x # xs) =
     (if x \<notin> seen then dedup_loop (insert x seen) (res @ [x]) xs
      else dedup_loop seen res xs)"

definition dedup :: "string list \<Rightarrow> string list" where
  "dedup items = dedup_loop {} [] items"

definition owner_role :: string where
  "owner_role = ''shared_mailbox_owner''"

definition sender_role :: string where
  "sender_role = ''shared_mailbox_sender''"

definition ensure_roles_valid :: "string list \<Rightarrow> world \<Rightarrow> string list \<times> world" where
  "ensure_roles_valid roles0 w =
     (let roles = dedup roles0 in
      if owner_role \<in> set roles then ([owner_role], w)
      else if \<not> list_ex (\<lambda>r. r \<in> set roles) [sender_role, owner_role]
           then (roles @ [sender_role], emit WarnAddSender w)
      else (roles, w))"

section \<open>Prompts and termination\<close>

definition die :: "die_msg \<Rightarrow> world \<Rightarrow> (stop + 'a) \<times> world" where
  "die msg w = (Inl (Died msg 1), emit (Stderr msg) w)"

text \<open>
  \<open>ask\<close>: \<open>input(prompt)\<close> prints the prompt and consumes one event of the terminal.
  An interrupt is caught and ends the run through \<open>die\<close>; the end of the input is an
  \<open>EOFError\<close> that nothing catches.
\<close>

definition ask :: "prompt \<Rightarrow> string option \<Rightarrow> world \<Rightarrow> (stop + string) \<times> world" where
  "ask p dflt w =
     (let w1 = (emit (Prompted p) w)\<lparr>stdin := stl (stdin w)\<rparr> in
      case shd (stdin w) of
        Line l \<Rightarrow>
          (let s = strip l in
           case dflt of
             Some d \<Rightarrow> if s = [] then (Inr d, w1) else (Inr s, w1)
           | None \<Rightarrow> (Inr s, w1))
      | Interrupt \<Rightarrow> die Interrupted w1
      | Eof \<Rightarrow> (Inl (Uncaught EOFError), w1))"

text \<open>Truth value of an \<open>Optional[str]\<close>: \<open>None\<close> and the empty string are false.\<close>

definition truthy_opt :: "string option \<Rightarrow> bool" where
  "truthy_opt v = (case v of None \<Rightarrow> False | Some s \<Rightarrow> s \<noteq> [])"

text \<open>\<open>a or b\<close> for an \<open>Optional[str]\<close> \<open>a\<close> and a string \<open>b\<close>.\<close>

definition or_else :: "string option \<Rightarrow> string \<Rightarrow> string" where
  "or_else a b = (case a of None \<Rightarrow> b | Some s \<Rightarrow> if s \<noteq> [] then s else b)"

section \<open>Configuration\<close>

definition getenv :: "(string \<rightharpoonup> string) \<Rightarrow> string \<Rightarrow> string \<Rightarrow> string" where
  "getenv env name dflt = (case env name of Some v \<Rightarrow> v | None \<Rightarrow> dflt)"

definition load_env ::
  "(string \<rightharpoonup> string) \<Rightarrow> world \<Rightarrow> (stop + string \<times> string \<times> string option) \<times> world" where
  "load_env env w =
     (let token = strip (getenv env ''TOKEN'' []);
          org_id = strip (getenv env ''ORG_ID'' []);
          n = lower (strip (getenv env ''NOTIFY'' []));
          notify = (if n \<noteq> [] then Some n else None)
      in if token = [] \<or> org_id = [] then die EnvMissing w
         else if truthy_opt notify \<and> or_else notify [] \<notin> VALID_NOTIFY
              then (Inr (token, org_id, None), emit (WarnEnvNotify (or_else notify [])) w)
         else (Inr (token, org_id, notify), w))"

section \<open>Decoded response bodies\<close>

text \<open>
  A decoded JSON value is a Python value: \<open>JNull\<close> is \<open>None\<close>, an object is the
  association list of its members (each key listed once). Numbers with a fraction or
  an exponent are outside the model.
\<close>

fun truthy :: "json \<Rightarrow> bool" where
  "truthy JNull = False"
| "truthy (JBool b) = b"
| "truthy (JInt i) = (i \<noteq> 0)"
| "truthy (JStr s) = (s \<noteq> [])"
| "truthy (JArr xs) = (xs \<noteq> [])"
| "truthy (JObj kvs) = (kvs \<noteq> [])"

text \<open>\<open>k in d\<close> for a string \<open>k\<close>.\<close>

fun json_contains :: "json \<Rightarrow> string \<Rightarrow> exn + bool" where
  "json_contains (JObj kvs) k = Inr (map_of kvs k \<noteq> None)"
| "json_contains (JArr xs) k = Inr (JStr k \<in> set xs)"
| "json_contains (JStr s) k = Inr (sublist k s)"
| "json_contains JNull k = Inl TypeError"
| "json_contains (JBool b) k = Inl TypeError"
| "json_contains (JInt i) k = Inl TypeError"

text \<open>\<open>d[k]\<close> for a string \<open>k\<close>.\<close>

fun json_subscript :: "json \<Rightarrow> string \<Rightarrow> exn + json" where
  "json_subscript (JObj kvs) k = (case map_of kvs k of Some v \<Rightarrow> Inr v | None \<Rightarrow> Inl KeyError)"
| "json_subscript d k = Inl TypeError"

fun json_get_any :: "json \<Rightarrow> string list \<Rightarrow> json \<Rightarrow> exn + json" where
  "json_get_any d [] dflt = Inr dflt"
| "json_get_any d (k # ks) dflt =
     (case json_contains d k of
        Inl e \<Rightarrow> Inl e
      | Inr False \<Rightarrow> json_get_any d ks dflt
      | Inr True \<Rightarrow>
          (case json_subscript d k of
             Inl e \<Rightarrow> Inl e
           | Inr v \<Rightarrow> if v \<notin> {JNull, JStr []} then Inr v else json_get_any d ks dflt))"

text \<open>
  \<open>str(v)\<close>. The text of a list or of a dict is Python's \<open>repr\<close> of it, which is taken
  as the parameter \<open>rp\<close>.
\<close>

fun str_nat :: "nat \<Rightarrow> string" where
  "str_nat n = (if n < 10 then [''0123456789'' ! n]
                else str_nat (n div 10) @ [''0123456789'' ! (n mod 10)])"

definition str_int :: "int \<Rightarrow> string" where
  "str_int i = (if i < 0 then CHR ''-'' # str_nat (nat (- i)) else str_nat (nat i))"

fun py_str :: "(json \<Rightarrow> string) \<Rightarrow> json \<Rightarrow> string" where
  "py_str rp JNull = ''None''"
| "py_str rp (JBool b) = (if b then ''True'' else ''False'')"
| "py_str rp (JInt i) = str_int i"
| "py_str rp (JStr s) = s"
| "py_str rp v = rp v"

section \<open>The actor list\<close>

type_synonym entry = "string \<times> string list \<times> string option"

text \<open>
  One iteration of the loop of \<open>parse_actors_csv\<close>: the line with its number, the list
  \<open>out\<close> collected so far and the state of the run; a \<open>continue\<close> returns them as they
  are. \<open>parts[0]\<close> and \<open>payload[-1]\<close> are read only where the source has checked that
  the list is long enough.
\<close>

definition parse_line :: "nat \<Rightarrow> string \<Rightarrow> entry list \<Rightarrow> world \<Rightarrow> entry list \<times> world" where
  "parse_line line_no line outp w =
     (let raw = strip line in
      if raw = [] \<or> startswith_hash raw then (outp, w)
      else
        let parts = map strip (split CHR '','' raw);
            parts = filter (\<lambda>p. p \<noteq> []) parts
        in if length parts < 2 then (outp, emit (WarnSkipColumns line_no) w)
           else
             let actor_id = hd parts;
                 payload = tl parts;
                 (per_row_notify, roles) =
                   (if payload \<noteq> [] \<and> lower (last payload) \<in> VALID_NOTIFY
                    then (Some (lower (last payload)), butlast payload)
                    else (None, payload))
             in if roles = [] then (outp, emit (WarnSkipNoRoles line_no) w)
                else (outp @ [(actor_id, dedup roles, per_row_notify)], w))"

text \<open>The loop over the lines of the file, numbered from 1.\<close>

fun parse_loop :: "nat \<Rightarrow> string list \<Rightarrow> entry list \<Rightarrow> world \<Rightarrow> entry list \<times> world" where
  "parse_loop line_no [] outp w = (outp, w)"
| "parse_loop line_no (line # rest) outp w =
     (case parse_line line_no line outp w of
        (outp1, w1) \<Rightarrow> parse_loop (Suc line_no) rest outp1 w1)"

text \<open>The file system maps a path to the lines of the regular file there, if any.\<close>

definition parse_actors_csv ::
  "(string \<rightharpoonup> string list) \<Rightarrow> string \<Rightarrow> world \<Rightarrow> (stop + entry list) \<times> world" where
  "parse_actors_csv fs path w =
     (case fs path of
        None \<Rightarrow> die (FileNotFound path) w
      | Some lines \<Rightarrow>
          (case parse_loop 1 lines [] w of
             (outp, w1) \<Rightarrow> if outp = [] then die NoValidRows w1 else (Inr outp, w1)))"

text \<open>
  What one line contributes, read off the loop body: the fields of a line, whether the
  line is blank or a comment, and the assignment of an accepted line.
\<close>

definition row_fields :: "string \<Rightarrow> string list" where
  "row_fields line = filter (\<lambda>p. p \<noteq> []) (map strip (split CHR '','' (strip line)))"

definition ignored :: "string \<Rightarrow> bool" where
  "ignored line = (strip line = [] \<or> startswith_hash (strip line))"

definition has_notify :: "string \<Rightarrow> bool" where
  "has_notify line = (lower (last (row_fields line)) \<in> VALID_NOTIFY)"

definition row_roles :: "string \<Rightarrow> string list" where
  "row_roles line =
     (if has_notify line then butlast (tl (row_fields line)) else tl (row_fields line))"

definition accepted :: "string \<Rightarrow> bool" where
  "accepted line = (\<not> ignored line \<and> 2 \<le> length (row_fields line) \<and> row_roles line \<noteq> [])"

definition row_entry :: "string \<Rightarrow> entry" where
  "row_entry line =
     (hd (row_fields line), dedup (row_roles line),
      if has_notify line then Some (lower (last (row_fields line))) else None)"

definition row_warnings :: "nat \<Rightarrow> string \<Rightarrow> event list" where
  "row_warnings line_no line =
     (if ignored line then []
      else if length (row_fields line) < 2 then [WarnSkipColumns line_no]
      else if row_roles line = [] then [WarnSkipNoRoles line_no]
      else [])"

text \<open>The warnings printed for a list of lines numbered from \<open>n\<close>.\<close>

fun warnings_from :: "nat \<Rightarrow> string list \<Rightarrow> event list" where
  "warnings_from n [] = []"
| "warnings_from n (l # ls) = row_warnings n l @ warnings_from (Suc n) ls"

section \<open>The client of the admin interface\<close>

text \<open>
  The network answers the \<open>n\<close>-th request of the run with a response or with an
  exception of the HTTP library (time-out, no connection).
\<close>

type_synonym net = "nat \<Rightarrow> request \<Rightarrow> http_result"

definition send :: "net \<Rightarrow> request \<Rightarrow> world \<Rightarrow> http_result \<times> world" where
  "send nt rq w = (nt (length (sent w)) rq, w\<lparr>sent := sent w @ [rq]\<rparr>)"

record api360 =
  org_id :: string
  base :: string
  hdrs :: "(string \<times> string) list"

definition Api360 :: "string \<Rightarrow> string \<Rightarrow> api360" where
  "Api360 token org =
     \<lparr>org_id = org,
      base = ''https://api360.yandex.net/admin/v1/org/'' @ org,
      hdrs = [(''Authorization'', ''OAuth '' @ token),
              (''Content-Type'', ''application/json''),
              (''Accept'', ''application/json'')]\<rparr>"

definition create_request :: "api360 \<Rightarrow> string \<Rightarrow> string \<Rightarrow> string \<Rightarrow> request" where
  "create_request api email name description =
     \<lparr>meth = PUT, url = base api @ ''/mailboxes/shared'', headers = hdrs api, params = [],
      body = JObj [(''email'', JStr email), (''name'', JStr name),
                   (''description'', JStr description)]\<rparr>"

text \<open>
  \<open>r.json() if r.content else {}\<close>; \<open>None\<close> when \<open>r.json()\<close> raises because the body
  is not JSON.
\<close>

definition response_data :: "response \<Rightarrow> json option" where
  "response_data r = (if content r \<noteq> [] then decoded r else Some (JObj []))"

definition id_keys :: "string list" where
  "id_keys = [''id'', ''mailboxId'', ''resourceId'']"

definition create_shared_mailbox ::
  "(json \<Rightarrow> string) \<Rightarrow> net \<Rightarrow> api360 \<Rightarrow> string \<Rightarrow> string \<Rightarrow> string \<Rightarrow> world
     \<Rightarrow> (exn + string) \<times> world" where
  "create_shared_mailbox rp nt api email name description w =
     (case send nt (create_request api email name description) w of
        (NetError m, w1) \<Rightarrow> (Inl (RequestException m), w1)
      | (Resp r, w1) \<Rightarrow>
          if status_code r \<noteq> 200 then (Inl (CreateFailed (status_code r) (rtext r)), w1)
          else
            (case response_data r of
               None \<Rightarrow> (Inl JSONDecodeError, w1)
             | Some data \<Rightarrow>
                 (case json_get_any data id_keys JNull of
                    Inl e \<Rightarrow> (Inl e, w1)
                  | Inr mailbox_id \<Rightarrow>
                      if \<not> truthy mailbox_id then (Inl (NoMailboxId data), w1)
                      else (Inr (py_str rp mailbox_id), w1))))"

text \<open>
  The first of the given keys that a dict holds with a value other than \<open>None\<close> and the
  empty string, with that value.
\<close>

definition first_usable :: "(string \<times> json) list \<Rightarrow> string list \<Rightarrow> json option" where
  "first_usable kvs ks = find (\<lambda>v. v \<notin> {JNull, JStr []}) (List.map_filter (map_of kvs) ks)"

definition set_request :: "api360 \<Rightarrow> string \<Rightarrow> string \<Rightarrow> string list \<Rightarrow> string \<Rightarrow> request" where
  "set_request api mailbox_id actor_id roles notify =
     \<lparr>meth = POST, url = base api @ ''/mailboxes/set/'' @ mailbox_id, headers = hdrs api,
      params = [(''actorId'', actor_id), (''notify'', notify)],
      body = JObj [(''roles'', JArr (map JStr roles))]\<rparr>"

definition set_access ::
  "net \<Rightarrow> api360 \<Rightarrow> string \<Rightarrow> string \<Rightarrow> string list \<Rightarrow> string \<Rightarrow> world \<Rightarrow> (exn + unit) \<times> world" where
  "set_access nt api mailbox_id actor_id roles0 notify w =
     (case ensure_roles_valid roles0 w of
        (roles, w1) \<Rightarrow>
          (case send nt (set_request api mailbox_id actor_id roles notify) w1 of
             (NetError m, w2) \<Rightarrow> (Inl (RequestException m), w2)
           | (Resp r, w2) \<Rightarrow>
               if status_code r \<noteq> 200
               then (Inl (SetAccessFailed actor_id roles notify (status_code r) (rtext r)), w2)
               else (Inr (), w2)))"

section \<open>The session\<close>

text \<open>
  The \<open>while True\<close> loop of \<open>resolve_global_notify\<close>. It may prompt for ever, so its
  result is optional: \<open>None\<close> is the run that never leaves the loop.
\<close>

partial_function (option) notify_loop :: "world \<Rightarrow> ((stop + string) \<times> world) option" where
  "notify_loop w =
     (case ask AskNotify (Some ''all'') w of
        (Inl s, w1) \<Rightarrow> Some (Inl s, w1)
      | (Inr a, w1) \<Rightarrow>
          if lower a \<in> VALID_NOTIFY then Some (Inr (lower a), w1)
          else notify_loop (emit NotifyInvalid w1))"

definition resolve_global_notify ::
  "string option \<Rightarrow> world \<Rightarrow> ((stop + string) \<times> world) option" where
  "resolve_global_notify env_notify w =
     (if truthy_opt env_notify then Some (Inr (or_else env_notify []), w)
      else notify_loop (emit NotifyHelp w))"

text \<open>Lines 146 to 157 of \<open>main\<close>: the configuration, the three prompts and their checks.\<close>

definition prepare ::
  "(string \<rightharpoonup> string) \<Rightarrow> world
     \<Rightarrow> (stop + api360 \<times> string option \<times> string \<times> string \<times> string) \<times> world" where
  "prepare env w =
     (case load_env env w of
        (Inl s, w1) \<Rightarrow> (Inl s, w1)
      | (Inr (token, org, env_notify), w1) \<Rightarrow>
          (case ask AskEmail None (emit HeaderCreate w1) of
             (Inl s, w2) \<Rightarrow> (Inl s, w2)
           | (Inr email, w2) \<Rightarrow>
               (case ask AskName None w2 of
                  (Inl s, w3) \<Rightarrow> (Inl s, w3)
                | (Inr name, w3) \<Rightarrow>
                    (case ask AskDescription None w3 of
                       (Inl s, w4) \<Rightarrow> (Inl s, w4)
                     | (Inr description, w4) \<Rightarrow>
                         if CHR ''@'' \<notin> set email then die BadEmail w4
                         else if name = [] then die EmptyName w4
                         else (Inr (Api360 token org, env_notify, email, name, description),
                               w4)))))"

text \<open>Line 163: the prompt for the path of the actor list.\<close>

definition ask_actors_path :: "world \<Rightarrow> (stop + string) \<times> world" where
  "ask_actors_path w = ask AskActorsPath (Some ''actors.csv'') w"

text \<open>Lines 167 to 176: one call of \<open>set_access\<close> for each entry, with the two counters.\<close>

fun assign_loop ::
  "net \<Rightarrow> api360 \<Rightarrow> string \<Rightarrow> string \<Rightarrow> entry list \<Rightarrow> nat \<Rightarrow> nat \<Rightarrow> world \<Rightarrow> (nat \<times> nat) \<times> world" where
  "assign_loop nt api mailbox_id global_notify [] ok fail w = ((ok, fail), w)"
| "assign_loop nt api mailbox_id global_notify ((actor_id, roles, per_row_notify) # rest) ok fail w =
     (let notify = or_else per_row_notify global_notify in
      case set_access nt api mailbox_id actor_id roles notify w of
        (Inr u, w1) \<Rightarrow>
          (case ensure_roles_valid roles w1 of
             (shown, w2) \<Rightarrow>
               assign_loop nt api mailbox_id global_notify rest (ok + 1) fail
                 (emit (AssignOk actor_id shown notify) w2))
      | (Inl e, w1) \<Rightarrow>
          assign_loop nt api mailbox_id global_notify rest ok (fail + 1)
            (emit (AssignFail actor_id e) w1))"

definition main ::
  "(json \<Rightarrow> string) \<Rightarrow> (string \<rightharpoonup> string) \<Rightarrow> (string \<rightharpoonup> string list) \<Rightarrow> net \<Rightarrow> world
     \<Rightarrow> ((stop + unit) \<times> world) option" where
  "main rp env fs nt w =
     (case prepare env w of
        (Inl s, w1) \<Rightarrow> Some (Inl s, w1)
      | (Inr (api, env_notify, email, name, description), w1) \<Rightarrow>
          (case create_shared_mailbox rp nt api email name description w1 of
             (Inl e, w2) \<Rightarrow> Some (Inl (Uncaught e), w2)
           | (Inr mailbox_id, w2) \<Rightarrow>
               (case ask_actors_path (emit HeaderAssign (emit (MailboxCreated mailbox_id) w2)) of
                  (Inl s, w3) \<Rightarrow> Some (Inl s, w3)
                | (Inr actors_path, w3) \<Rightarrow>
                    (case parse_actors_csv fs actors_path w3 of
                       (Inl s, w4) \<Rightarrow> Some (Inl s, w4)
                     | (Inr entries, w4) \<Rightarrow>
                         (case resolve_global_notify env_notify w4 of
                            None \<Rightarrow> None
                          | Some (Inl s, w5) \<Rightarrow> Some (Inl s, w5)
                          | Some (Inr global_notify, w5) \<Rightarrow>
                              (case assign_loop nt api mailbox_id global_notify entries 0 0 w5 of
                                 ((ok, fail), w6) \<Rightarrow>
                                   Some (Inr (),
                                     emit Closing
                                       (emit (Tally ok fail) (emit HeaderSummary w6)))))))))"


text \<open>
  What the loop of \<open>resolve_global_notify\<close> makes of a typed line: the line without
  surrounding white space, \<open>all\<close> if nothing is left, in lower case.
\<close>

definition notify_answer :: "string \<Rightarrow> string" where
  "notify_answer l = lower (if strip l = [] then ''all'' else strip l)"

text \<open>The answers of the network to a list of requests sent one after the other from
  position \<open>n\<close>, and whether an answer is the success status.\<close>

definition outcome_ok :: "http_result \<Rightarrow> bool" where
  "outcome_ok a = (case a of Resp r \<Rightarrow> status_code r = 200 | NetError m \<Rightarrow> False)"

fun answers :: "net \<Rightarrow> nat \<Rightarrow> request list \<Rightarrow> http_result list" where
  "answers nt n [] = []"
| "answers nt n (rq # rqs) = nt n rq # answers nt (Suc n) rqs"

section \<open>Sample inputs\<close>

definition world0 :: world where
  "world0 = \<lparr>stdin = sconst Eof, out = [], sent = []\<rparr>"

definition demo_lines :: "string list" where
  "demo_lines = [''# actors'', [], ''badrow'', ''user1,shared_mailbox_sender'',
     '' user2 , reader,,editor,reader , NONE'', ''user3,all'',
     ''user4,shared_mailbox_owner,reader'']"

definition demo_fs :: "string \<rightharpoonup> string list" where
  "demo_fs = [''actors.csv'' \<mapsto> demo_lines]"

definition demo_entries :: "entry list" where
  "demo_entries = [(''user1'', [''shared_mailbox_sender''], None),
     (''user2'', [''reader'', ''editor''], Some ''none''),
     (''user4'', [''shared_mailbox_owner'', ''reader''], None)]"

definition demo_api :: api360 where
  "demo_api = Api360 ''t0ken'' ''42''"

definition demo_repr :: "json \<Rightarrow> string" where
  "demo_repr v = ''?''"

definition zero_id_body :: "(string \<times> json) list" where
  "zero_id_body = [(''id'', JInt 0), (''mailboxId'', JStr ''m1'')]"

definition zero_id_response :: response where
  "zero_id_response = \<lparr>status_code = 200, content = ''{...}'', rtext = ''{...}'',
     decoded = Some (JObj zero_id_body)\<rparr>"

definition zero_id_net :: net where
  "zero_id_net n rq = Resp zero_id_response"

definition enter_world :: world where
  "enter_world = \<lparr>stdin = Line [] ## sconst Eof, out = [], sent = []\<rparr>"

definition demo_env :: "string \<rightharpoonup> string" where
  "demo_env = [''TOKEN'' \<mapsto> ''t0ken'', ''ORG_ID'' \<mapsto> ''42'']"

definition demo_stdin :: "input_event stream" where
  "demo_stdin = Line ''box@example.org'' ## Line ''Box'' ## Line ''shared'' ## Line [] ##
     Line ''bogus'' ## Line [] ## sconst Eof"

definition demo_world :: world where
  "demo_world = \<lparr>stdin = demo_stdin, out = [], sent = []\<rparr>"

definition created_body :: "(string \<times> json) list" where
  "created_body = [(''id'', JStr []), (''mailboxId'', JStr ''mbx-7'')]"

definition created :: response where
  "created = \<lparr>status_code = 200, content = ''{...}'', rtext = ''{...}'',
     decoded = Some (JObj created_body)\<rparr>"

definition refused :: response where
  "refused = \<lparr>status_code = 500, content = ''boom'', rtext = ''boom'', decoded = None\<rparr>"

definition granted :: response where
  "granted = \<lparr>status_code = 200, content = [], rtext = [], decoded = None\<rparr>"

definition demo_net :: net where
  "demo_net n rq = (if n = 0 then Resp created else if n = 2 then Resp refused else Resp granted)"

definition prepared_world :: world where
  "prepared_world = \<lparr>stdin = Line [] ## Line ''bogus'' ## Line [] ## sconst Eof,
     out = [HeaderCreate, Prompted AskEmail, Prompted AskName, Prompted AskDescription],
     sent = []\<rparr>"

definition created_world :: world where
  "created_world = prepared_world\<lparr>sent := [create_request demo_api ''box@example.org'' ''Box'' ''shared'']\<rparr>"

definition path_world :: world where
  "path_world =
     \<lparr>stdin = Line ''bogus'' ## Line [] ## sconst Eof,
      out = [HeaderCreate, Prompted AskEmail, Prompted AskName, Prompted AskDescription,
             MailboxCreated ''mbx-7'', HeaderAssign, Prompted AskActorsPath],
      sent = [create_request demo_api ''box@example.org'' ''Box'' ''shared'']\<rparr>"

definition parsed_world :: world where
  "parsed_world = path_world\<lparr>out := out path_world @ [WarnSkipColumns 3, WarnSkipNoRoles 6]\<rparr>"

definition resolved_world :: world where
  "resolved_world =
     parsed_world\<lparr>stdin := sconst Eof,
       out := out parsed_world @ [NotifyHelp, Prompted AskNotify, NotifyInvalid, Prompted AskNotify]\<rparr>"

definition forbidden :: response where
  "forbidden = \<lparr>status_code = 403, content = ''Forbidden'', rtext = ''Forbidden'',
     decoded = None\<rparr>"

definition forbidden_net :: net where
  "forbidden_net n rq = Resp forbidden"

definition notify_env :: "string \<rightharpoonup> string" where
  "notify_env = [''TOKEN'' \<mapsto> ''t0ken'', ''ORG_ID'' \<mapsto> ''42'', ''NOTIFY'' \<mapsto> '' None '']"

definition no_files :: "string \<rightharpoonup> string list" where
  "no_files = Map.empty"

section \<open>Deduplication\<close>

lemma dedup_loop_filter:
  "dedup_loop seen res xs =
     res @ map (\<lambda>i. xs ! i) (filter (\<lambda>i. xs ! i \<notin> seen \<union> set (take i xs)) [0..<length xs])"
proof (induction xs arbitrary: seen res)
  case Nil
  show ?case by simp
next
  case (Cons x xs)
  have upt: "[0..<length (x # xs)] = 0 # map Suc [0..<length xs]"
    by (simp add: upt_conv_Cons map_Suc_upt del: upt_Suc)
  show ?case
  proof (cases "x \<in> seen")
    case True
    then have "\<And>y. (y \<notin> seen \<and> y \<noteq> x \<and> y \<notin> set (take i xs)) = (y \<notin> seen \<and> y \<notin> set (take i xs))" for i
      by auto
    with True show ?thesis
      unfolding upt by (simp add: Cons.IH filter_map comp_def)
  next
    case False
    then show ?thesis
      unfolding upt by (simp add: Cons.IH filter_map comp_def conj_ac)
  qed
qed

lemma dedup_first_occurrences:
  "dedup xs = map (\<lambda>i. xs ! i) (filter (\<lambda>i. xs ! i \<notin> set (take i xs)) [0..<length xs])"
  by (simp add: dedup_def dedup_loop_filter)

lemma set_dedup_loop: "set (dedup_loop seen res xs) = set res \<union> (set xs - seen)"
  by (induction xs arbitrary: seen res) auto

lemma set_dedup [simp]: "set (dedup xs) = set xs"
  by (simp add: dedup_def set_dedup_loop)

lemma distinct_dedup_loop:
  "distinct res \<Longrightarrow> set res \<subseteq> seen \<Longrightarrow> distinct (dedup_loop seen res xs)"
proof (induction xs arbitrary: seen res)
  case Nil
  then show ?case by simp
next
  case (Cons x xs)
  show ?case
  proof (cases "x \<in> seen")
    case True
    with Cons show ?thesis by simp
  next
    case False
    with Cons.prems have "distinct (res @ [x])" and "set (res @ [x]) \<subseteq> insert x seen"
      by auto
    then have "distinct (dedup_loop (insert x seen) (res @ [x]) xs)"
      by (rule Cons.IH)
    with False show ?thesis by simp
  qed
qed

lemma distinct_dedup [simp]: "distinct (dedup xs)"
  by (simp add: dedup_def distinct_dedup_loop)

lemma dedup_loop_distinct_id:
  "distinct xs \<Longrightarrow> set xs \<inter> seen = {} \<Longrightarrow> dedup_loop seen res xs = res @ xs"
  by (induction xs arbitrary: seen res) auto

lemma dedup_distinct_id: "distinct xs \<Longrightarrow> dedup xs = xs"
  by (simp add: dedup_def dedup_loop_distinct_id)

lemma dedup_idem [simp]: "dedup (dedup xs) = dedup xs"
  by (simp add: dedup_distinct_id)

lemma dedup_eq_Nil [simp]: "dedup xs = [] \<longleftrightarrow> xs = []"
  by (metis set_dedup set_empty)

section \<open>Role normalisation\<close>

lemma sender_not_owner: "sender_role \<noteq> owner_role"
  by (simp add: sender_role_def owner_role_def)

text \<open>
  C1. Role normalisation. If the owner role is among the given roles, the result is the
  single owner role. If neither the owner role nor the sender role is among them, the
  result is the deduplicated list followed by the sender role, which then occurs exactly
  once. Otherwise the result is the deduplicated list. The deduplicated list has no
  repetition, holds the same roles and keeps each role at its first occurrence.
\<close>

theorem ensure_roles_valid_cases:
  "(owner_role \<in> set rs \<longrightarrow> fst (ensure_roles_valid rs w) = [owner_role]) \<and>
   (owner_role \<notin> set rs \<and> sender_role \<notin> set rs \<longrightarrow>
      fst (ensure_roles_valid rs w) = dedup rs @ [sender_role] \<and>
      count_list (fst (ensure_roles_valid rs w)) sender_role = 1) \<and>
   (owner_role \<notin> set rs \<and> sender_role \<in> set rs \<longrightarrow>
      fst (ensure_roles_valid rs w) = dedup rs) \<and>
   distinct (dedup rs) \<and> set (dedup rs) = set rs \<and>
   dedup rs = map (\<lambda>i. rs ! i) (filter (\<lambda>i. rs ! i \<notin> set (take i rs)) [0..<length rs])"
proof -
  have cnt: "sender_role \<notin> set rs \<Longrightarrow> count_list (dedup rs @ [sender_role]) sender_role = 1"
    by (simp add: count_list_0_iff)
  have branches:
    "(owner_role \<in> set rs \<longrightarrow> fst (ensure_roles_valid rs w) = [owner_role]) \<and>
     (owner_role \<notin> set rs \<and> sender_role \<notin> set rs \<longrightarrow>
        fst (ensure_roles_valid rs w) = dedup rs @ [sender_role] \<and>
        count_list (fst (ensure_roles_valid rs w)) sender_role = 1) \<and>
     (owner_role \<notin> set rs \<and> sender_role \<in> set rs \<longrightarrow>
        fst (ensure_roles_valid rs w) = dedup rs)"
    using cnt by (simp add: ensure_roles_valid_def Let_def)
  have shape: "distinct (dedup rs) \<and> set (dedup rs) = set rs"
    by simp
  from branches shape dedup_first_occurrences [of rs] show ?thesis
    by blast
qed

theorem ensure_roles_valid_cases_witness:
  "owner_role \<in> set [''reader'', owner_role, ''reader''] \<and>
   fst (ensure_roles_valid [''reader'', owner_role, ''reader''] world0) = [owner_role] \<and>
   owner_role \<notin> set [''reader'', ''auditor'', ''reader''] \<and>
   sender_role \<notin> set [''reader'', ''auditor'', ''reader''] \<and>
   fst (ensure_roles_valid [''reader'', ''auditor'', ''reader''] world0) =
     [''reader'', ''auditor'', sender_role] \<and>
   owner_role \<notin> set [sender_role, ''reader'', sender_role] \<and>
   sender_role \<in> set [sender_role, ''reader'', sender_role] \<and>
   fst (ensure_roles_valid [sender_role, ''reader'', sender_role] world0) =
     [sender_role, ''reader'']"
  using ensure_roles_valid_cases [of "[''reader'', owner_role, ''reader'']" world0]
        ensure_roles_valid_cases [of "[''reader'', ''auditor'', ''reader'']" world0]
        ensure_roles_valid_cases [of "[sender_role, ''reader'', sender_role]" world0]
  by (simp add: dedup_def owner_role_def sender_role_def)

text \<open>
  C10. Normalising a normalised list of roles changes nothing, and the result does not
  depend on the state of the run: the roles shown in the confirmation line, normalised
  again from the entry, are the roles that were sent.
\<close>

theorem ensure_roles_valid_idem:
  "fst (ensure_roles_valid (fst (ensure_roles_valid rs w)) w') = fst (ensure_roles_valid rs w) \<and>
   fst (ensure_roles_valid rs w') = fst (ensure_roles_valid rs w)"
  by (simp add: ensure_roles_valid_def Let_def sender_not_owner sender_not_owner [symmetric]
      dedup_distinct_id)

theorem ensure_roles_valid_idem_witness:
  "fst (ensure_roles_valid (fst (ensure_roles_valid [''reader'', ''reader''] world0)) world0) =
     [''reader'', sender_role]"
  using ensure_roles_valid_idem [of "[''reader'', ''reader'']" world0 world0]
  by (simp add: ensure_roles_valid_def dedup_def owner_role_def sender_role_def)

section \<open>The parser\<close>

lemma payload_last:
  "2 \<le> length ps \<Longrightarrow> tl ps \<noteq> [] \<and> last (tl ps) = last ps"
  by (cases ps) (auto simp: Suc_le_eq)

lemma parse_line_cases:
  "parse_line n line outp w =
     (if ignored line then (outp, w)
      else if length (row_fields line) < 2 then (outp, emit (WarnSkipColumns n) w)
      else if row_roles line = [] then (outp, emit (WarnSkipNoRoles n) w)
      else (outp @ [row_entry line], w))"
proof (cases "2 \<le> length (row_fields line)")
  case True
  from payload_last [OF True]
  have pl: "tl (row_fields line) \<noteq> []" "last (tl (row_fields line)) = last (row_fields line)"
    by simp_all
  have "parse_line n line outp w =
     (if ignored line then (outp, w)
      else if length (row_fields line) < 2 then (outp, emit (WarnSkipColumns n) w)
      else
        let (per_row_notify, roles) =
              (if tl (row_fields line) \<noteq> [] \<and> lower (last (tl (row_fields line))) \<in> VALID_NOTIFY
               then (Some (lower (last (tl (row_fields line)))), butlast (tl (row_fields line)))
               else (None, tl (row_fields line)))
        in if roles = [] then (outp, emit (WarnSkipNoRoles n) w)
           else (outp @ [(hd (row_fields line), dedup roles, per_row_notify)], w))"
    by (simp add: parse_line_def ignored_def row_fields_def Let_def comp_def)
  also have "\<dots> =
     (if ignored line then (outp, w)
      else if length (row_fields line) < 2 then (outp, emit (WarnSkipColumns n) w)
      else if row_roles line = [] then (outp, emit (WarnSkipNoRoles n) w)
      else (outp @ [row_entry line], w))"
    using pl by (simp add: row_roles_def has_notify_def row_entry_def)
  finally show ?thesis .
next
  case False
  then show ?thesis
    by (simp add: parse_line_def ignored_def row_fields_def Let_def comp_def)
qed

lemma parse_line_closed:
  "parse_line n line outp w =
     (outp @ (if accepted line then [row_entry line] else []),
      w\<lparr>out := out w @ row_warnings n line\<rparr>)"
  unfolding parse_line_cases
  by (simp add: accepted_def row_warnings_def emit_def)

lemma parse_loop_closed:
  "parse_loop n lines outp w =
     (outp @ map row_entry (filter accepted lines),
      w\<lparr>out := out w @ warnings_from n lines\<rparr>)"
proof (induction lines arbitrary: n outp w)
  case Nil
  show ?case by simp
next
  case (Cons l ls)
  show ?case
    by (simp add: parse_line_closed Cons.IH)
qed


lemma parse_actors_csv_closed:
  "fs path = Some lines \<Longrightarrow>
   parse_actors_csv fs path w =
     (if filter accepted lines = []
      then die NoValidRows (w\<lparr>out := out w @ warnings_from 1 lines\<rparr>)
      else (Inr (map row_entry (filter accepted lines)),
            w\<lparr>out := out w @ warnings_from 1 lines\<rparr>))"
  by (simp add: parse_actors_csv_def parse_loop_closed)

lemma parse_actors_csv_result:
  "fs path = Some lines \<Longrightarrow>
   fst (parse_actors_csv fs path w) =
     (if filter accepted lines = [] then Inl (Died NoValidRows 1)
      else Inr (map row_entry (filter accepted lines)))"
  by (simp add: parse_actors_csv_closed die_def)

lemma parse_actors_csv_out:
  "fs path = Some lines \<Longrightarrow>
   set (warnings_from 1 lines) \<subseteq>
     set (drop (length (out w)) (out (snd (parse_actors_csv fs path w))))"
  by (auto simp: parse_actors_csv_closed die_def emit_def)

lemma warnings_from_nth:
  "i < length lines \<Longrightarrow> set (row_warnings (n + i) (lines ! i)) \<subseteq> set (warnings_from n lines)"
proof (induction lines arbitrary: n i)
  case Nil
  then show ?case by simp
next
  case (Cons l ls)
  show ?case
  proof (cases i)
    case 0
    then show ?thesis by simp
  next
    case (Suc j)
    with Cons.prems have "j < length ls" by simp
    from Cons.IH [OF this, of "Suc n"] Suc show ?thesis by auto
  qed
qed

lemma row_entry_shape:
  "row_entry l =
     (hd (row_fields l),
      dedup (if lower (last (row_fields l)) \<in> VALID_NOTIFY
             then butlast (tl (row_fields l)) else tl (row_fields l)),
      if lower (last (row_fields l)) \<in> VALID_NOTIFY
      then Some (lower (last (row_fields l))) else None)"
  by (simp add: row_entry_def row_roles_def has_notify_def)

text \<open>
  C2. When the file exists and the parse succeeds, the assignments are those of the accepted
  lines, one for each, in the order of the file. The assignment of an accepted line has the
  first field as actor; its notification override is present exactly when the last field,
  in lower case, is one of the three literals, and is then that literal, the roles being the
  fields between the first and the last; otherwise the roles are all fields after the first.
  The roles are stored without repetition, each at its first occurrence.
\<close>

theorem parse_rows_contract:
  assumes present: "fs path = Some lines"
    and ok: "fst (parse_actors_csv fs path w) = Inr entries"
  shows "entries = map row_entry (filter accepted lines) \<and>
    (\<forall>l \<in> set lines. accepted l \<longrightarrow>
       (\<exists>actor roles notify rs.
          row_entry l = (actor, roles, notify) \<and>
          2 \<le> length (row_fields l) \<and>
          actor = hd (row_fields l) \<and>
          (notify \<noteq> None \<longleftrightarrow> lower (last (row_fields l)) \<in> VALID_NOTIFY) \<and>
          (lower (last (row_fields l)) \<in> VALID_NOTIFY \<longrightarrow>
             notify = Some (lower (last (row_fields l))) \<and> rs = butlast (tl (row_fields l))) \<and>
          (lower (last (row_fields l)) \<notin> VALID_NOTIFY \<longrightarrow> rs = tl (row_fields l)) \<and>
          rs \<noteq> [] \<and> roles = dedup rs \<and> distinct roles \<and> set roles = set rs \<and>
          roles = map (\<lambda>i. rs ! i) (filter (\<lambda>i. rs ! i \<notin> set (take i rs)) [0..<length rs])))"
proof -
  have first: "entries = map row_entry (filter accepted lines)"
    using ok present parse_actors_csv_result [of fs path lines w] by (simp split: if_splits)
  have rows: "\<exists>actor roles notify rs.
          row_entry l = (actor, roles, notify) \<and>
          2 \<le> length (row_fields l) \<and>
          actor = hd (row_fields l) \<and>
          (notify \<noteq> None \<longleftrightarrow> lower (last (row_fields l)) \<in> VALID_NOTIFY) \<and>
          (lower (last (row_fields l)) \<in> VALID_NOTIFY \<longrightarrow>
             notify = Some (lower (last (row_fields l))) \<and> rs = butlast (tl (row_fields l))) \<and>
          (lower (last (row_fields l)) \<notin> VALID_NOTIFY \<longrightarrow> rs = tl (row_fields l)) \<and>
          rs \<noteq> [] \<and> roles = dedup rs \<and> distinct roles \<and> set roles = set rs \<and>
          roles = map (\<lambda>i. rs ! i) (filter (\<lambda>i. rs ! i \<notin> set (take i rs)) [0..<length rs])"
    if acc: "accepted l" for l
  proof -
    define hit where "hit \<longleftrightarrow> lower (last (row_fields l)) \<in> VALID_NOTIFY"
    define rs where "rs = (if hit then butlast (tl (row_fields l)) else tl (row_fields l))"
    define nt where "nt = (if hit then Some (lower (last (row_fields l))) else None)"
    have e: "row_entry l = (hd (row_fields l), dedup rs, nt)"
      unfolding rs_def nt_def hit_def by (rule row_entry_shape)
    have two: "2 \<le> length (row_fields l)"
      using acc by (simp add: accepted_def)
    have ne: "rs \<noteq> []"
      using acc by (simp add: accepted_def row_roles_def has_notify_def rs_def hit_def)
    have n1: "nt \<noteq> None \<longleftrightarrow> lower (last (row_fields l)) \<in> VALID_NOTIFY"
      by (simp add: nt_def hit_def)
    have n2: "lower (last (row_fields l)) \<in> VALID_NOTIFY \<longrightarrow>
        nt = Some (lower (last (row_fields l))) \<and> rs = butlast (tl (row_fields l))"
      by (simp add: nt_def rs_def hit_def)
    have n3: "lower (last (row_fields l)) \<notin> VALID_NOTIFY \<longrightarrow> rs = tl (row_fields l)"
      by (simp add: rs_def hit_def)
    have occ: "dedup rs =
        map (\<lambda>i. rs ! i) (filter (\<lambda>i. rs ! i \<notin> set (take i rs)) [0..<length rs])"
      by (rule dedup_first_occurrences)
    have d: "distinct (dedup rs)" and st: "set (dedup rs) = set rs"
      by simp_all
    from e two n1 n2 n3 ne d st occ show ?thesis
      by blast
  qed
  from first rows show ?thesis by blast
qed


lemmas text_defs = strip_def split_def is_space_def whitespace_def startswith_hash_def
  lower_def lower_char_def upper_letters_def lower_letters_def VALID_NOTIFY_def

lemmas row_defs = accepted_def ignored_def row_roles_def has_notify_def row_entry_def
  row_warnings_def row_fields_def

lemma demo_rows: "map row_entry (filter accepted demo_lines) = demo_entries"
  by (simp add: demo_lines_def demo_entries_def row_defs text_defs dedup_def)

lemma demo_warnings: "warnings_from 1 demo_lines = [WarnSkipColumns 3, WarnSkipNoRoles 6]"
  by (simp add: demo_lines_def row_defs text_defs)

lemma demo_file: "demo_fs ''actors.csv'' = Some demo_lines"
  by (simp add: demo_fs_def)

lemma demo_parse: "fst (parse_actors_csv demo_fs ''actors.csv'' world0) = Inr demo_entries"
proof -
  have "filter accepted demo_lines \<noteq> []"
    using demo_rows by (auto simp: demo_entries_def)
  with parse_actors_csv_result [of demo_fs "''actors.csv''" demo_lines world0]
  show ?thesis by (simp add: demo_file demo_rows)
qed

theorem parse_rows_contract_witness:
  "demo_fs ''actors.csv'' = Some demo_lines \<and>
   fst (parse_actors_csv demo_fs ''actors.csv'' world0) = Inr demo_entries \<and>
   demo_entries = map row_entry (filter accepted demo_lines) \<and>
   demo_entries = [(''user1'', [''shared_mailbox_sender''], None),
                   (''user2'', [''reader'', ''editor''], Some ''none''),
                   (''user4'', [''shared_mailbox_owner'', ''reader''], None)]"
  using parse_rows_contract [of demo_fs "''actors.csv''" demo_lines world0 demo_entries]
    demo_file demo_parse
  by (simp add: demo_entries_def)

text \<open>
  C3. In an existing file, a line that is neither blank nor a comment and has fewer than two
  fields, or no role once the trailing literal is taken off, yields no assignment and the
  parse prints a warning with its line number; blank and comment lines yield nothing. The lines after it
  are still read: the result is made of all accepted lines. The parse ends the run exactly
  when no line is accepted.
\<close>

theorem parse_skips_and_fails:
  assumes present: "fs path = Some lines"
  shows
   "(\<forall>i < length lines.
       \<not> ignored (lines ! i) \<and> length (row_fields (lines ! i)) < 2 \<longrightarrow>
         \<not> accepted (lines ! i) \<and>
         WarnSkipColumns (Suc i) \<in> set (drop (length (out w)) (out (snd (parse_actors_csv fs path w))))) \<and>
    (\<forall>i < length lines.
       \<not> ignored (lines ! i) \<and> 2 \<le> length (row_fields (lines ! i)) \<and>
       (if lower (last (row_fields (lines ! i))) \<in> VALID_NOTIFY
        then butlast (tl (row_fields (lines ! i))) else tl (row_fields (lines ! i))) = [] \<longrightarrow>
         \<not> accepted (lines ! i) \<and>
         WarnSkipNoRoles (Suc i) \<in> set (drop (length (out w)) (out (snd (parse_actors_csv fs path w))))) \<and>
    (\<forall>i < length lines. ignored (lines ! i) \<longrightarrow> \<not> accepted (lines ! i)) \<and>
    fst (parse_actors_csv fs path w) =
      (if filter accepted lines = [] then Inl (Died NoValidRows 1)
       else Inr (map row_entry (filter accepted lines))) \<and>
    ((\<exists>s. fst (parse_actors_csv fs path w) = Inl s) \<longleftrightarrow> filter accepted lines = [])"
proof -
  have res: "fst (parse_actors_csv fs path w) =
      (if filter accepted lines = [] then Inl (Died NoValidRows 1)
       else Inr (map row_entry (filter accepted lines)))"
    using present by (rule parse_actors_csv_result)
  have printed: "set (row_warnings (Suc i) (lines ! i))
      \<subseteq> set (drop (length (out w)) (out (snd (parse_actors_csv fs path w))))" if "i < length lines" for i
    using warnings_from_nth [OF that, of 1] parse_actors_csv_out [of fs path lines w] present
    by simp
  have cols: "\<not> accepted (lines ! i) \<and>
      WarnSkipColumns (Suc i) \<in> set (drop (length (out w)) (out (snd (parse_actors_csv fs path w))))"
    if "i < length lines" "\<not> ignored (lines ! i)" "length (row_fields (lines ! i)) < 2" for i
    using printed [OF that(1)] that(2,3) by (simp add: accepted_def row_warnings_def)
  have noroles: "\<not> accepted (lines ! i) \<and>
      WarnSkipNoRoles (Suc i) \<in> set (drop (length (out w)) (out (snd (parse_actors_csv fs path w))))"
    if "i < length lines" "\<not> ignored (lines ! i)" "2 \<le> length (row_fields (lines ! i))"
      "(if lower (last (row_fields (lines ! i))) \<in> VALID_NOTIFY
        then butlast (tl (row_fields (lines ! i))) else tl (row_fields (lines ! i))) = []" for i
  proof -
    from that(4) have "row_roles (lines ! i) = []"
      by (simp add: row_roles_def has_notify_def)
    with printed [OF that(1)] that(2,3) show ?thesis
      by (simp add: accepted_def row_warnings_def)
  qed
  have ign: "ignored l \<longrightarrow> \<not> accepted l" for l
    by (simp add: accepted_def)
  have fatal: "(\<exists>s. fst (parse_actors_csv fs path w) = Inl s) \<longleftrightarrow> filter accepted lines = []"
    by (simp add: res)
  from cols noroles ign res fatal show ?thesis
    by blast
qed

theorem parse_skips_and_fails_witness:
  "demo_fs ''actors.csv'' = Some demo_lines \<and>
   2 < length demo_lines \<and> \<not> ignored (demo_lines ! 2) \<and>
   length (row_fields (demo_lines ! 2)) < 2 \<and>
   WarnSkipColumns 3 \<in> set (drop (length (out world0)) (out (snd (parse_actors_csv demo_fs ''actors.csv'' world0)))) \<and>
   fst (parse_actors_csv demo_fs ''actors.csv'' world0) = Inr demo_entries"
proof -
  have l: "2 < length demo_lines" and i: "\<not> ignored (demo_lines ! 2)"
    and f: "length (row_fields (demo_lines ! 2)) < 2"
    by (simp_all add: demo_lines_def row_defs text_defs)
  from parse_skips_and_fails [of demo_fs "''actors.csv''" demo_lines world0] demo_file l i f
  have "WarnSkipColumns (Suc 2) \<in> set (drop (length (out world0)) (out (snd (parse_actors_csv demo_fs ''actors.csv'' world0))))"
    by blast
  with l i f demo_file demo_parse show ?thesis by simp
qed

text \<open>
  C9. The result of the parse depends on the lines of the file only: two files with the same
  lines give the same result in any two states of the run, and parsing again after a parse
  gives the same result.
\<close>

theorem parse_deterministic:
  "(fs path = Some lines \<and> fs' path' = Some lines \<longrightarrow>
      fst (parse_actors_csv fs path w) = fst (parse_actors_csv fs' path' w')) \<and>
   fst (parse_actors_csv fs path (snd (parse_actors_csv fs path w))) =
     fst (parse_actors_csv fs path w)"
proof -
  have same: "fst (parse_actors_csv fs path w1) = fst (parse_actors_csv fs path w2)" for w1 w2
  proof (cases "fs path")
    case None
    then show ?thesis by (simp add: parse_actors_csv_def die_def)
  next
    case (Some ls)
    then show ?thesis by (simp add: parse_actors_csv_result)
  qed
  have "fst (parse_actors_csv fs path w) = fst (parse_actors_csv fs' path' w')"
    if "fs path = Some lines" "fs' path' = Some lines"
    using that by (simp add: parse_actors_csv_result)
  with same show ?thesis by blast
qed

theorem parse_deterministic_witness:
  "demo_fs ''actors.csv'' = Some demo_lines \<and>
   fst (parse_actors_csv demo_fs ''actors.csv''
         (snd (parse_actors_csv demo_fs ''actors.csv'' world0))) = Inr demo_entries"
  using parse_deterministic [of demo_fs "''actors.csv''" demo_lines demo_fs "''actors.csv''" world0 world0]
    demo_file demo_parse
  by simp

section \<open>The sample run\<close>

lemma demo_prepare:
  "prepare demo_env demo_world =
     (Inr (demo_api, None, ''box@example.org'', ''Box'', ''shared''), prepared_world)"
  by (simp add: prepare_def load_env_def getenv_def demo_env_def demo_world_def demo_stdin_def
      ask_def emit_def Let_def truthy_opt_def or_else_def demo_api_def prepared_world_def text_defs)

lemma demo_create:
  "create_shared_mailbox demo_repr demo_net demo_api ''box@example.org'' ''Box'' ''shared'' prepared_world =
     (Inr ''mbx-7'', created_world)"
  by (simp add: create_shared_mailbox_def send_def demo_net_def created_def created_body_def response_data_def
      id_keys_def prepared_world_def created_world_def)

section \<open>Creating the mailbox\<close>

lemma json_get_any_obj:
  "json_get_any (JObj kvs) ks d = Inr (case first_usable kvs ks of Some v \<Rightarrow> v | None \<Rightarrow> d)"
proof (induction ks)
  case Nil
  show ?case by (simp add: first_usable_def List.map_filter_simps)
next
  case (Cons k ks)
  show ?case
  proof (cases "map_of kvs k")
    case None
    with Cons show ?thesis by (simp add: first_usable_def List.map_filter_simps)
  next
    case (Some v)
    with Cons show ?thesis by (simp add: first_usable_def List.map_filter_simps)
  qed
qed

lemma json_get_any_other:
  "\<forall>kvs. d \<noteq> JObj kvs \<Longrightarrow> json_get_any d ks JNull = Inr v \<Longrightarrow> v = JNull"
proof (induction ks)
  case Nil
  then show ?case by simp
next
  case (Cons k ks)
  then show ?case
    by (cases d) (auto split: if_splits bool.splits)
qed

lemma first_usable_Some:
  "first_usable kvs ks = Some v \<Longrightarrow> v \<noteq> JNull \<and> v \<noteq> JStr []"
  by (auto simp: first_usable_def find_Some_iff)

lemma create_fst:
  "fst (create_shared_mailbox rp nt api email name description w) =
     (case nt (length (sent w)) (create_request api email name description) of
        NetError m \<Rightarrow> Inl (RequestException m)
      | Resp r \<Rightarrow>
          if status_code r \<noteq> 200 then Inl (CreateFailed (status_code r) (rtext r))
          else (case response_data r of
                  None \<Rightarrow> Inl JSONDecodeError
                | Some data \<Rightarrow>
                    (case json_get_any data id_keys JNull of
                       Inl e \<Rightarrow> Inl e
                     | Inr v \<Rightarrow> if \<not> truthy v then Inl (NoMailboxId data)
                               else Inr (py_str rp v))))"
  by (simp add: create_shared_mailbox_def send_def split: http_result.splits option.splits sum.splits)

text \<open>
  C6 (amended). A status other than 200 fails with the status and the raw body. With status
  200 and a body that is empty or decodes to an object, the call looks at the first of the
  fields \<open>id\<close>, \<open>mailboxId\<close>, \<open>resourceId\<close> that is present with a value other than
  \<open>null\<close> and the empty string: if that value is true in Python's sense, the call returns its
  text; if there is no such field or the value is false (0, \<open>false\<close>, an empty list or
  object), it fails with the decoded body. The call succeeds in no other case.
\<close>

theorem create_shared_mailbox_contract:
  "(nt (length (sent w)) (create_request api email name description) = Resp r \<and>
      status_code r \<noteq> 200 \<longrightarrow>
      fst (create_shared_mailbox rp nt api email name description w) =
        Inl (CreateFailed (status_code r) (rtext r))) \<and>
   (nt (length (sent w)) (create_request api email name description) = Resp r \<and>
      status_code r = 200 \<and> response_data r = Some (JObj kvs) \<longrightarrow>
      fst (create_shared_mailbox rp nt api email name description w) =
        (case first_usable kvs id_keys of
           None \<Rightarrow> Inl (NoMailboxId (JObj kvs))
         | Some v \<Rightarrow> if truthy v then Inr (py_str rp v) else Inl (NoMailboxId (JObj kvs)))) \<and>
   ((\<exists>s. fst (create_shared_mailbox rp nt api email name description w) = Inr s) \<longleftrightarrow>
      (\<exists>r kvs v. nt (length (sent w)) (create_request api email name description) = Resp r \<and>
         status_code r = 200 \<and> response_data r = Some (JObj kvs) \<and>
         first_usable kvs id_keys = Some v \<and> truthy v))"
proof -
  let ?res = "fst (create_shared_mailbox rp nt api email name description w)"
  let ?ans = "nt (length (sent w)) (create_request api email name description)"
  have bad: "?res = Inl (CreateFailed (status_code r) (rtext r))"
    if "?ans = Resp r" "status_code r \<noteq> 200"
    using that by (simp add: create_fst)
  have obj: "?res = (case first_usable kvs id_keys of
           None \<Rightarrow> Inl (NoMailboxId (JObj kvs))
         | Some v \<Rightarrow> if truthy v then Inr (py_str rp v) else Inl (NoMailboxId (JObj kvs)))"
    if "?ans = Resp r" "status_code r = 200" "response_data r = Some (JObj kvs)" for r kvs
    using that by (simp add: create_fst json_get_any_obj split: option.splits)
  have iff: "(\<exists>s. ?res = Inr s) \<longleftrightarrow>
      (\<exists>r kvs v. ?ans = Resp r \<and> status_code r = 200 \<and> response_data r = Some (JObj kvs) \<and>
         first_usable kvs id_keys = Some v \<and> truthy v)"
  proof
    assume "\<exists>s. ?res = Inr s"
    then obtain s where s: "?res = Inr s" ..
    then obtain r where r: "?ans = Resp r"
      by (cases ?ans) (simp_all add: create_fst)
    with s have st: "status_code r = 200"
      by (simp add: create_fst split: if_splits)
    with s r obtain data where data: "response_data r = Some data"
      by (cases "response_data r") (simp_all add: create_fst)
    with s r st obtain v where v: "json_get_any data id_keys JNull = Inr v" and t: "truthy v"
      by (cases "json_get_any data id_keys JNull") (simp_all add: create_fst split: if_splits)
    have "\<exists>kvs. data = JObj kvs"
    proof (rule ccontr)
      assume "\<not> (\<exists>kvs. data = JObj kvs)"
      then have "\<forall>kvs. data \<noteq> JObj kvs" by simp
      from json_get_any_other [OF this v] t show False by simp
    qed
    then obtain kvs where kvs: "data = JObj kvs" ..
    with v t have "first_usable kvs id_keys = Some v"
      by (cases "first_usable kvs id_keys") (simp_all add: json_get_any_obj)
    with r st data kvs t show "\<exists>r kvs v. ?ans = Resp r \<and> status_code r = 200 \<and>
        response_data r = Some (JObj kvs) \<and> first_usable kvs id_keys = Some v \<and> truthy v"
      by blast
  next
    assume "\<exists>r kvs v. ?ans = Resp r \<and> status_code r = 200 \<and> response_data r = Some (JObj kvs) \<and>
         first_usable kvs id_keys = Some v \<and> truthy v"
    then obtain r kvs v where "?ans = Resp r" "status_code r = 200"
      "response_data r = Some (JObj kvs)" "first_usable kvs id_keys = Some v" "truthy v"
      by blast
    with obj [of r kvs] show "\<exists>s. ?res = Inr s" by simp
  qed
  from bad obj iff show ?thesis by blast
qed

theorem create_shared_mailbox_contract_witness:
  "demo_net (length (sent prepared_world))
     (create_request demo_api ''box@example.org'' ''Box'' ''shared'') = Resp created \<and>
   status_code created = 200 \<and> response_data created = Some (JObj created_body) \<and>
   first_usable created_body id_keys = Some (JStr ''mbx-7'') \<and>
   fst (create_shared_mailbox demo_repr demo_net demo_api ''box@example.org'' ''Box'' ''shared''
          prepared_world) = Inr ''mbx-7''"
  using create_shared_mailbox_contract [where nt = demo_net and w = prepared_world
      and api = demo_api and email = "''box@example.org''" and name = "''Box''"
      and description = "''shared''" and r = created and rp = demo_repr and kvs = created_body]
  by (simp add: demo_net_def prepared_world_def created_def response_data_def created_body_def
      first_usable_def id_keys_def List.map_filter_simps)

text \<open>
  C6 as stated fails: the body \<open>{"id": 0, "mailboxId": "m1"}\<close> arrives with status 200 and
  holds candidate fields with values other than \<open>null\<close> and the empty string, yet the call
  fails, because the first of them is 0.
\<close>

theorem create_claim_counterexample:
  "zero_id_net (length (sent world0)) (create_request demo_api ''box@example.org'' ''Box'' []) =
     Resp zero_id_response \<and>
   status_code zero_id_response = 200 \<and>
   response_data zero_id_response = Some (JObj zero_id_body) \<and>
   map_of zero_id_body ''id'' = Some (JInt 0) \<and> JInt 0 \<noteq> JNull \<and> JInt 0 \<noteq> JStr [] \<and>
   map_of zero_id_body ''mailboxId'' = Some (JStr ''m1'') \<and>
   fst (create_shared_mailbox demo_repr zero_id_net demo_api ''box@example.org'' ''Box'' [] world0) =
     Inl (NoMailboxId (JObj zero_id_body))"
  by (simp add: create_fst zero_id_net_def zero_id_response_def response_data_def id_keys_def
      zero_id_body_def)

section \<open>The notification default\<close>

lemma ask_Line:
  "shd (stdin w) = Line l \<Longrightarrow>
   ask p d w =
     (Inr (case d of Some dv \<Rightarrow> if strip l = [] then dv else strip l | None \<Rightarrow> strip l),
      (emit (Prompted p) w)\<lparr>stdin := stl (stdin w)\<rparr>)"
  by (simp add: ask_def Let_def split: option.splits)

lemma notify_loop_accept:
  "shd (stdin w) = Line l \<Longrightarrow> notify_answer l \<in> VALID_NOTIFY \<Longrightarrow>
   notify_loop w = Some (Inr (notify_answer l), (emit (Prompted AskNotify) w)\<lparr>stdin := stl (stdin w)\<rparr>)"
  by (subst notify_loop.simps) (simp add: ask_Line notify_answer_def)

lemma notify_loop_reject:
  "shd (stdin w) = Line l \<Longrightarrow> notify_answer l \<notin> VALID_NOTIFY \<Longrightarrow>
   notify_loop w =
     notify_loop (emit NotifyInvalid ((emit (Prompted AskNotify) w)\<lparr>stdin := stl (stdin w)\<rparr>))"
  by (subst notify_loop.simps) (simp add: ask_Line notify_answer_def)

lemma notify_loop_reaches:
  "(\<forall>i<k. \<exists>l. stdin w !! i = Line l \<and> notify_answer l \<notin> VALID_NOTIFY) \<Longrightarrow>
   stdin w !! k = Line a \<Longrightarrow> notify_answer a \<in> VALID_NOTIFY \<Longrightarrow>
   \<exists>w'. notify_loop w = Some (Inr (notify_answer a), w') \<and>
        stdin w' = sdrop (Suc k) (stdin w) \<and> sent w' = sent w \<and>
        out w' = out w @ concat (replicate k [Prompted AskNotify, NotifyInvalid]) @ [Prompted AskNotify]"
proof (induction k arbitrary: w)
  case 0
  then have "shd (stdin w) = Line a" by simp
  from notify_loop_accept [OF this "0.prems"(3)] show ?case
    by (simp add: emit_def)
next
  case (Suc k)
  from Suc.prems(1) obtain l where l: "shd (stdin w) = Line l" "notify_answer l \<notin> VALID_NOTIFY"
    by force
  let ?w1 = "emit NotifyInvalid ((emit (Prompted AskNotify) w)\<lparr>stdin := stl (stdin w)\<rparr>)"
  have s1: "stdin ?w1 = stl (stdin w)" by (simp add: emit_def)
  have a: "\<forall>i<k. \<exists>l. stdin ?w1 !! i = Line l \<and> notify_answer l \<notin> VALID_NOTIFY"
  proof (intro allI impI)
    fix i assume "i < k"
    then have "Suc i < Suc k" by simp
    with Suc.prems(1) have "\<exists>l. stdin w !! Suc i = Line l \<and> notify_answer l \<notin> VALID_NOTIFY"
      by blast
    then show "\<exists>l. stdin ?w1 !! i = Line l \<and> notify_answer l \<notin> VALID_NOTIFY"
      by (simp add: s1)
  qed
  have b: "stdin ?w1 !! k = Line a" using Suc.prems(2) by (simp add: s1)
  from Suc.IH [OF a b Suc.prems(3)] obtain w' where w':
    "notify_loop ?w1 = Some (Inr (notify_answer a), w')"
    "stdin w' = sdrop (Suc k) (stdin ?w1)" "sent w' = sent ?w1"
    "out w' = out ?w1 @ concat (replicate k [Prompted AskNotify, NotifyInvalid]) @ [Prompted AskNotify]"
    by blast
  from w' notify_loop_reject [OF l] show ?case
    by (simp add: emit_def)
qed

lemma notify_loop_valid_aux:
  assumes "notify_loop w = Some y"
  shows "\<forall>g w'. y = (Inr g, w') \<longrightarrow> g \<in> VALID_NOTIFY"
proof (rule notify_loop.raw_induct
    [where P = "\<lambda>w y. \<forall>g w'. y = (Inr g, w') \<longrightarrow> g \<in> VALID_NOTIFY", OF _ assms])
  fix self :: "world \<Rightarrow> ((stop + string) \<times> world) option" and w y
  assume IH: "\<And>w y. self w = Some y \<Longrightarrow> \<forall>g w'. y = (Inr g, w') \<longrightarrow> g \<in> VALID_NOTIFY"
    and step: "(case ask AskNotify (Some ''all'') w of
        (Inl s, w1) \<Rightarrow> Some (Inl s, w1)
      | (Inr a, w1) \<Rightarrow>
          if lower a \<in> VALID_NOTIFY then Some (Inr (lower a), w1)
          else self (emit NotifyInvalid w1)) = Some y"
  show "\<forall>g w'. y = (Inr g, w') \<longrightarrow> g \<in> VALID_NOTIFY"
  proof (cases "ask AskNotify (Some ''all'') w")
    case (Pair r w1)
    show ?thesis
    proof (cases r)
      case (Inl s)
      with Pair step show ?thesis by auto
    next
      case (Inr a)
      show ?thesis
      proof (cases "lower a \<in> VALID_NOTIFY")
        case True
        with Pair Inr step show ?thesis by auto
      next
        case False
        with Pair Inr step have "self (emit NotifyInvalid w1) = Some y" by simp
        then show ?thesis by (rule IH)
      qed
    qed
  qed
qed

lemma notify_loop_valid:
  "notify_loop w = Some (Inr g, w') \<Longrightarrow> g \<in> VALID_NOTIFY"
  using notify_loop_valid_aux by blast

lemma load_env_notify:
  "load_env env w = (Inr (token, org, Some v), w1) \<Longrightarrow> v \<in> VALID_NOTIFY \<and> v \<noteq> []"
  by (auto simp: load_env_def Let_def die_def truthy_opt_def or_else_def split: if_splits)

lemma resolve_valid:
  "resolve_global_notify en w = Some (Inr g, w') \<Longrightarrow> en = None \<or> (\<exists>v. en = Some v \<and> v \<in> VALID_NOTIFY)
   \<Longrightarrow> g \<in> VALID_NOTIFY"
  by (auto simp: resolve_global_notify_def truthy_opt_def or_else_def
      split: if_splits dest: notify_loop_valid)

lemma empty_not_valid: "[] \<notin> VALID_NOTIFY"
  by (simp add: VALID_NOTIFY_def)

lemma row_entry_notify:
  "row_entry l = (a, rs, Some v) \<Longrightarrow> v \<in> VALID_NOTIFY"
  by (auto simp: row_entry_def split: if_splits simp: has_notify_def)

section \<open>The assignment loop\<close>

lemma ensure_roles_valid_sent [simp]: "sent (snd (ensure_roles_valid rs w)) = sent w"
  by (simp add: ensure_roles_valid_def Let_def emit_def)

lemma ensure_roles_valid_stdin [simp]: "stdin (snd (ensure_roles_valid rs w)) = stdin w"
  by (simp add: ensure_roles_valid_def Let_def emit_def)

lemma ensure_roles_valid_any: "fst (ensure_roles_valid rs w) = fst (ensure_roles_valid rs w')"
  by (simp add: ensure_roles_valid_def Let_def)

lemma set_access_closed:
  "set_access nt api mid a rs n w =
     ((if outcome_ok (nt (length (sent w)) (set_request api mid a (fst (ensure_roles_valid rs w)) n))
       then Inr ()
       else Inl (case nt (length (sent w)) (set_request api mid a (fst (ensure_roles_valid rs w)) n) of
                   NetError m \<Rightarrow> RequestException m
                 | Resp r \<Rightarrow> SetAccessFailed a (fst (ensure_roles_valid rs w)) n
                             (status_code r) (rtext r))),
      (snd (ensure_roles_valid rs w))
        \<lparr>sent := sent w @ [set_request api mid a (fst (ensure_roles_valid rs w)) n]\<rparr>)"
proof -
  obtain rs' w1 where e: "ensure_roles_valid rs w = (rs', w1)"
    by (cases "ensure_roles_valid rs w")
  with ensure_roles_valid_sent [of rs w] have s: "sent w1 = sent w"
    by simp
  show ?thesis
    by (simp add: set_access_def send_def outcome_ok_def e s split: http_result.splits)
qed

lemma assign_loop_closed:
  "assign_loop nt api mid g entries ok fail w = ((ok', fail'), w') \<Longrightarrow>
   sent w' = sent w @
     map (\<lambda>(a, rs, pn). set_request api mid a (fst (ensure_roles_valid rs world0)) (or_else pn g))
       entries \<and>
   ok' = ok + length (filter outcome_ok (answers nt (length (sent w))
     (map (\<lambda>(a, rs, pn). set_request api mid a (fst (ensure_roles_valid rs world0)) (or_else pn g))
       entries))) \<and>
   fail' = fail + length (filter (\<lambda>a. \<not> outcome_ok a) (answers nt (length (sent w))
     (map (\<lambda>(a, rs, pn). set_request api mid a (fst (ensure_roles_valid rs world0)) (or_else pn g))
       entries))) \<and>
   stdin w' = stdin w"
proof (induction entries arbitrary: ok fail w)
  case Nil
  then show ?case by simp
next
  case (Cons e es)
  obtain a rs pn where e: "e = (a, rs, pn)" by (cases e)
  let ?rq = "set_request api mid a (fst (ensure_roles_valid rs world0)) (or_else pn g)"
  have rq: "set_request api mid a (fst (ensure_roles_valid rs w)) (or_else pn g) = ?rq"
    using ensure_roles_valid_any [of rs w world0] by simp
  let ?w1 = "snd (set_access nt api mid a rs (or_else pn g) w)"
  have s1: "sent ?w1 = sent w @ [?rq]" and i1: "stdin ?w1 = stdin w"
    by (simp_all add: set_access_closed rq)
  show ?case
  proof (cases "outcome_ok (nt (length (sent w)) ?rq)")
    case True
    let ?w2 = "emit (AssignOk a (fst (ensure_roles_valid rs ?w1)) (or_else pn g))
                 (snd (ensure_roles_valid rs ?w1))"
    have step: "assign_loop nt api mid g (e # es) ok fail w =
        assign_loop nt api mid g es (ok + 1) fail ?w2"
      using True by (simp add: e set_access_closed rq Let_def split: prod.splits)
    have s2: "sent ?w2 = sent w @ [?rq]" and i2: "stdin ?w2 = stdin w"
      using s1 i1 by (simp_all add: emit_def)
    from Cons.prems step have "assign_loop nt api mid g es (ok + 1) fail ?w2 = ((ok', fail'), w')"
      by simp
    from Cons.IH [OF this] True show ?thesis
      by (simp add: e s2 i2)
  next
    case False
    let ?w2 = "emit (AssignFail a (case nt (length (sent w)) ?rq of
                   NetError m \<Rightarrow> RequestException m
                 | Resp r \<Rightarrow> SetAccessFailed a (fst (ensure_roles_valid rs w)) (or_else pn g)
                             (status_code r) (rtext r))) ?w1"
    have step: "assign_loop nt api mid g (e # es) ok fail w =
        assign_loop nt api mid g es ok (fail + 1) ?w2"
      using False by (simp add: e set_access_closed rq Let_def)
    have s2: "sent ?w2 = sent w @ [?rq]" and i2: "stdin ?w2 = stdin w"
      using s1 i1 by (simp_all add: emit_def)
    from Cons.prems step have "assign_loop nt api mid g es ok (fail + 1) ?w2 = ((ok', fail'), w')"
      by simp
    from Cons.IH [OF this] False show ?thesis
      by (simp add: e s2 i2)
  qed
qed

lemma answers_length [simp]: "length (answers nt n rqs) = length rqs"
  by (induction rqs arbitrary: n) simp_all

lemma filter_split_length:
  "length (filter P xs) + length (filter (\<lambda>x. \<not> P x) xs) = length xs"
  by (induction xs) simp_all

section \<open>Runs of the session\<close>

lemma emit_sent [simp]: "sent (emit e w) = sent w"
  by (simp add: emit_def)

lemma emit_stdin [simp]: "stdin (emit e w) = stdin w"
  by (simp add: emit_def)

lemma ask_sent [simp]: "sent (snd (ask p d w)) = sent w"
  by (simp add: ask_def Let_def emit_def die_def split: input_event.splits option.splits)

lemma load_env_sent [simp]: "sent (snd (load_env env w)) = sent w"
  by (simp add: load_env_def Let_def emit_def die_def)

lemma prepare_sent: "prepare env w = (r, w1) \<Longrightarrow> sent w1 = sent w"
proof -
  assume p: "prepare env w = (r, w1)"
  obtain r0 w0 where l: "load_env env w = (r0, w0)" by (cases "load_env env w")
  with load_env_sent [of env w] have s0: "sent w0 = sent w" by simp
  show ?thesis
  proof (cases r0)
    case (Inl s)
    with p l s0 show ?thesis by (simp add: prepare_def)
  next
    case (Inr cfg)
    obtain token org en where cfg: "cfg = (token, org, en)" by (cases cfg)
    obtain r2 w2 where a2: "ask AskEmail None (emit HeaderCreate w0) = (r2, w2)"
      by (cases "ask AskEmail None (emit HeaderCreate w0)")
    with ask_sent [of AskEmail None "emit HeaderCreate w0"] s0 have s2: "sent w2 = sent w"
      by simp
    obtain r3 w3 where a3: "ask AskName None w2 = (r3, w3)" by (cases "ask AskName None w2")
    with ask_sent [of AskName None w2] s2 have s3: "sent w3 = sent w" by simp
    obtain r4 w4 where a4: "ask AskDescription None w3 = (r4, w4)"
      by (cases "ask AskDescription None w3")
    with ask_sent [of AskDescription None w3] s3 have s4: "sent w4 = sent w" by simp
    from p l Inr cfg a2 a3 a4 s2 s3 s4 show ?thesis
      by (auto simp: prepare_def die_def emit_def split: sum.splits if_splits)
  qed
qed

lemma create_sent:
  "sent (snd (create_shared_mailbox rp nt api email name description w)) =
     sent w @ [create_request api email name description]"
  by (simp add: create_shared_mailbox_def send_def split: http_result.splits option.splits sum.splits)

text \<open>
  C7. When the run reaches the creation call and the answer has a status other than 200, the
  run ends with the uncaught error carrying that status and body, the exit status is 1, and
  the creation request is the only request sent: no assignment request follows.
\<close>

theorem no_assignment_after_failed_creation:
  assumes prep: "prepare env w = (Inr (api, en, email, name, description), w1)"
    and answer: "nt (length (sent w1)) (create_request api email name description) = Resp r"
    and status: "status_code r \<noteq> 200"
  shows "\<exists>w2. main rp env fs nt w =
           Some (Inl (Uncaught (CreateFailed (status_code r) (rtext r))), w2) \<and>
         exit_status (Inl (Uncaught (CreateFailed (status_code r) (rtext r)))) = 1 \<and>
         sent w2 = sent w @ [create_request api email name description] \<and>
         meth (create_request api email name description) = PUT \<and>
         filter (\<lambda>rq. meth rq = POST) (sent w2) = filter (\<lambda>rq. meth rq = POST) (sent w)"
proof -
  let ?c = "create_shared_mailbox rp nt api email name description w1"
  have f: "fst ?c = Inl (CreateFailed (status_code r) (rtext r))"
    using answer status by (simp add: create_fst)
  obtain w2 where c: "?c = (Inl (CreateFailed (status_code r) (rtext r)), w2)"
    using f by (cases ?c) auto
  have s: "sent w2 = sent w @ [create_request api email name description]"
    using prepare_sent [OF prep] create_sent [of rp nt api email name description w1] c
    by simp
  have m: "main rp env fs nt w =
      Some (Inl (Uncaught (CreateFailed (status_code r) (rtext r))), w2)"
    by (simp add: main_def prep c)
  have p: "meth (create_request api email name description) = PUT"
    by (simp add: create_request_def)
  from m s p show ?thesis
    by simp
qed

lemma ask_actors_path_blank:
  "shd (stdin w) = Line l \<Longrightarrow> strip l = [] \<Longrightarrow>
   ask_actors_path w = (Inr ''actors.csv'', (emit (Prompted AskActorsPath) w)\<lparr>stdin := stl (stdin w)\<rparr>)"
  by (simp add: ask_actors_path_def ask_Line)

text \<open>
  C8 (amended). When the user enters nothing at the prompt for the actor list, the path used
  is the string \<open>actors.csv\<close>: the prompt returns it, the run reads no other file, and a
  missing file is reported under that name.
\<close>

theorem default_actors_path:
  assumes prep: "prepare env w = (Inr (api, en, email, name, description), w1)"
    and made: "create_shared_mailbox rp nt api email name description w1 = (Inr mid, w2)"
    and enter: "shd (stdin w2) = Line l"
    and blank: "strip l = []"
  shows "fst (ask_actors_path (emit HeaderAssign (emit (MailboxCreated mid) w2))) =
           Inr ''actors.csv'' \<and>
         (\<forall>fs'. fs' ''actors.csv'' = fs ''actors.csv'' \<longrightarrow>
            main rp env fs' nt w = main rp env fs nt w) \<and>
         (fs ''actors.csv'' = None \<longrightarrow>
            (\<exists>w'. main rp env fs nt w = Some (Inl (Died (FileNotFound ''actors.csv'') 1), w')))"
proof -
  let ?w = "emit HeaderAssign (emit (MailboxCreated mid) w2)"
  have e: "shd (stdin ?w) = Line l" using enter by simp
  note a = ask_actors_path_blank [OF e blank]
  have same: "main rp env fs' nt w = main rp env fs nt w"
    if "fs' ''actors.csv'' = fs ''actors.csv''" for fs'
    using that by (simp add: main_def prep made a parse_actors_csv_def)
  have missing: "\<exists>w'. main rp env fs nt w = Some (Inl (Died (FileNotFound ''actors.csv'') 1), w')"
    if "fs ''actors.csv'' = None"
    using that by (simp add: main_def prep made a parse_actors_csv_def die_def)
  have first: "fst (ask_actors_path ?w) = Inr ''actors.csv''"
    by (simp add: a)
  from first same missing show ?thesis by blast
qed

text \<open>
  C5. When the run reaches the assignment loop with \<open>n\<close> parsed entries, it sends one
  assignment request for each entry, in order, whatever the answers are; the success
  counter is the number of answers with status 200 and the failure counter the number of
  other answers and network errors, so they add up to \<open>n\<close>; the run prints the two
  counters and ends with exit status 0.
\<close>

theorem assignment_tally:
  assumes prep: "prepare env w = (Inr (api, en, email, name, description), w1)"
    and made: "create_shared_mailbox rp nt api email name description w1 = (Inr mid, w2)"
    and path: "ask_actors_path (emit HeaderAssign (emit (MailboxCreated mid) w2)) = (Inr p, w3)"
    and parsed: "parse_actors_csv fs p w3 = (Inr entries, w4)"
    and resolved: "resolve_global_notify en w4 = Some (Inr g, w5)"
  shows "\<exists>ok fail w6.
      assign_loop nt api mid g entries 0 0 w5 = ((ok, fail), w6) \<and>
      main rp env fs nt w =
        Some (Inr (), emit Closing (emit (Tally ok fail) (emit HeaderSummary w6))) \<and>
      exit_status (Inr ()) = 0 \<and>
      ok + fail = length entries \<and>
      sent w6 = sent w5 @
        map (\<lambda>(a, rs, pn). set_request api mid a (fst (ensure_roles_valid rs w5)) (or_else pn g))
          entries \<and>
      ok = length (filter outcome_ok (answers nt (length (sent w5))
        (map (\<lambda>(a, rs, pn). set_request api mid a (fst (ensure_roles_valid rs w5)) (or_else pn g))
          entries))) \<and>
      fail = length (filter (\<lambda>a. \<not> outcome_ok a) (answers nt (length (sent w5))
        (map (\<lambda>(a, rs, pn). set_request api mid a (fst (ensure_roles_valid rs w5)) (or_else pn g))
          entries)))"
proof -
  obtain ok fail w6 where loop: "assign_loop nt api mid g entries 0 0 w5 = ((ok, fail), w6)"
    by (metis prod.collapse)
  let ?canon = "map (\<lambda>(a, rs, pn).
      set_request api mid a (fst (ensure_roles_valid rs world0)) (or_else pn g)) entries"
  let ?reqs = "map (\<lambda>(a, rs, pn).
      set_request api mid a (fst (ensure_roles_valid rs w5)) (or_else pn g)) entries"
  have r: "?canon = ?reqs"
    using ensure_roles_valid_any [of _ world0 w5] by simp
  from assign_loop_closed [OF loop]
  have s: "sent w6 = sent w5 @ ?canon"
    and o: "ok = length (filter outcome_ok (answers nt (length (sent w5)) ?canon))"
    and f: "fail = length (filter (\<lambda>a. \<not> outcome_ok a) (answers nt (length (sent w5)) ?canon))"
    by simp_all
  have total: "ok + fail = length entries"
    unfolding o f using filter_split_length [of outcome_ok "answers nt (length (sent w5)) ?canon"]
    by simp
  have m: "main rp env fs nt w =
      Some (Inr (), emit Closing (emit (Tally ok fail) (emit HeaderSummary w6)))"
    by (simp add: main_def prep made path parsed resolved loop)
  from loop m total s o f show ?thesis
    unfolding r by (intro exI [of _ ok] exI [of _ fail] exI [of _ w6]) simp
qed

section \<open>The sample run, continued\<close>

lemma demo_path:
  "ask_actors_path (emit HeaderAssign (emit (MailboxCreated ''mbx-7'') created_world)) =
     (Inr ''actors.csv'', path_world)"
  by (simp add: ask_actors_path_def ask_def Let_def emit_def created_world_def prepared_world_def
      path_world_def strip_def)

lemma demo_parse_full:
  "parse_actors_csv demo_fs ''actors.csv'' path_world = (Inr demo_entries, parsed_world)"
proof -
  have "filter accepted demo_lines \<noteq> []"
    using demo_rows by (auto simp: demo_entries_def)
  moreover have "warnings_from (Suc 0) demo_lines = [WarnSkipColumns 3, WarnSkipNoRoles 6]"
    using demo_warnings by simp
  ultimately show ?thesis
    using parse_actors_csv_closed [of demo_fs "''actors.csv''" demo_lines path_world]
    by (simp add: demo_file demo_rows parsed_world_def)
qed

lemma answer_bogus: "notify_answer ''bogus'' \<notin> VALID_NOTIFY"
  by (simp add: notify_answer_def text_defs)

lemma answer_blank: "notify_answer [] = ''all''"
  by (simp add: notify_answer_def text_defs)

lemma all_valid: "''all'' \<in> VALID_NOTIFY"
  by (simp add: VALID_NOTIFY_def)

lemma demo_resolve:
  "resolve_global_notify None parsed_world = Some (Inr ''all'', resolved_world)"
proof -
  let ?w0 = "emit NotifyHelp parsed_world"
  let ?w1 = "emit NotifyInvalid ((emit (Prompted AskNotify) ?w0)\<lparr>stdin := stl (stdin ?w0)\<rparr>)"
  have h0: "shd (stdin ?w0) = Line ''bogus''"
    by (simp add: parsed_world_def path_world_def)
  have h1: "shd (stdin ?w1) = Line []"
    by (simp add: parsed_world_def path_world_def)
  have v: "notify_answer [] \<in> VALID_NOTIFY"
    by (simp add: answer_blank all_valid)
  have "notify_loop ?w0 = notify_loop ?w1"
    by (rule notify_loop_reject [OF h0 answer_bogus])
  also have "\<dots> = Some (Inr (notify_answer []), (emit (Prompted AskNotify) ?w1)\<lparr>stdin := stl (stdin ?w1)\<rparr>)"
    by (rule notify_loop_accept [OF h1 v])
  also have "\<dots> = Some (Inr ''all'', resolved_world)"
    by (simp add: answer_blank emit_def resolved_world_def parsed_world_def path_world_def)
  finally show ?thesis
    by (simp add: resolve_global_notify_def truthy_opt_def)
qed

theorem no_assignment_after_failed_creation_witness:
  "prepare demo_env demo_world =
     (Inr (demo_api, None, ''box@example.org'', ''Box'', ''shared''), prepared_world) \<and>
   forbidden_net (length (sent prepared_world))
     (create_request demo_api ''box@example.org'' ''Box'' ''shared'') = Resp forbidden \<and>
   status_code forbidden \<noteq> 200 \<and>
   (\<exists>w2. main demo_repr demo_env demo_fs forbidden_net demo_world =
           Some (Inl (Uncaught (CreateFailed 403 ''Forbidden'')), w2) \<and>
         sent w2 = [create_request demo_api ''box@example.org'' ''Box'' ''shared''])"
proof -
  have a: "forbidden_net (length (sent prepared_world))
     (create_request demo_api ''box@example.org'' ''Box'' ''shared'') = Resp forbidden"
    by (simp add: forbidden_net_def)
  have s: "status_code forbidden \<noteq> 200"
    by (simp add: forbidden_def)
  note t = no_assignment_after_failed_creation [where nt = forbidden_net and rp = demo_repr
      and fs = demo_fs, OF demo_prepare a s]
  from t obtain w2 where
    m: "main demo_repr demo_env demo_fs forbidden_net demo_world =
          Some (Inl (Uncaught (CreateFailed (status_code forbidden) (rtext forbidden))), w2)"
    and q: "sent w2 = sent demo_world @ [create_request demo_api ''box@example.org'' ''Box'' ''shared'']"
    by (elim exE conjE) (rule that; assumption)
  have m': "main demo_repr demo_env demo_fs forbidden_net demo_world =
          Some (Inl (Uncaught (CreateFailed 403 ''Forbidden'')), w2)"
    using m by (simp add: forbidden_def)
  have q': "sent w2 = [create_request demo_api ''box@example.org'' ''Box'' ''shared'']"
    using q by (simp add: demo_world_def)
  show ?thesis
    apply (intro conjI)
       apply (rule demo_prepare)
      apply (rule a)
     apply (rule s)
    apply (rule exI [of _ w2])
    apply (rule conjI)
     apply (rule m')
    apply (rule q')
    done
qed

theorem default_actors_path_witness:
  "prepare demo_env demo_world =
     (Inr (demo_api, None, ''box@example.org'', ''Box'', ''shared''), prepared_world) \<and>
   create_shared_mailbox demo_repr demo_net demo_api ''box@example.org'' ''Box'' ''shared''
     prepared_world = (Inr ''mbx-7'', created_world) \<and>
   shd (stdin created_world) = Line [] \<and> strip [] = [] \<and>
   fst (ask_actors_path (emit HeaderAssign (emit (MailboxCreated ''mbx-7'') created_world))) =
     Inr ''actors.csv'' \<and>
   (\<exists>w'. main demo_repr demo_env no_files demo_net demo_world =
          Some (Inl (Died (FileNotFound ''actors.csv'') 1), w'))"
proof -
  have e: "shd (stdin created_world) = Line []"
    by (simp add: created_world_def prepared_world_def)
  have b: "strip [] = []"
    by (simp add: strip_def)
  note t = default_actors_path [where nt = demo_net and rp = demo_repr and fs = no_files,
      OF demo_prepare demo_create e b]
  have p: "fst (ask_actors_path (emit HeaderAssign (emit (MailboxCreated ''mbx-7'') created_world))) =
     Inr ''actors.csv''"
    by (rule t [THEN conjunct1])
  have n: "no_files ''actors.csv'' = None"
    by (simp add: no_files_def)
  have d: "\<exists>w'. main demo_repr demo_env no_files demo_net demo_world =
          Some (Inl (Died (FileNotFound ''actors.csv'') 1), w')"
    by (rule t [THEN conjunct2, THEN conjunct2, THEN mp, OF n])
  show ?thesis
    apply (intro conjI)
         apply (rule demo_prepare)
        apply (rule demo_create)
       apply (rule e)
      apply (rule b)
     apply (rule p)
    apply (rule d)
    done
qed

text \<open>
  C8 as stated fails: after an empty answer the path is \<open>actors.csv\<close>, which is not the
  string \<open>./actors.csv\<close>.
\<close>

theorem default_path_claim_counterexample:
  "shd (stdin enter_world) = Line [] \<and> strip [] = [] \<and>
   fst (ask_actors_path enter_world) = Inr ''actors.csv'' \<and>
   ''actors.csv'' \<noteq> ''./actors.csv''"
  by (simp add: enter_world_def ask_actors_path_def ask_def Let_def strip_def)

lemma demo_requests:
  "map (\<lambda>(a, rs, pn).
      set_request demo_api ''mbx-7'' a (fst (ensure_roles_valid rs resolved_world)) (or_else pn ''all''))
     demo_entries =
   [set_request demo_api ''mbx-7'' ''user1'' [''shared_mailbox_sender''] ''all'',
    set_request demo_api ''mbx-7'' ''user2'' [''reader'', ''editor'', ''shared_mailbox_sender''] ''none'',
    set_request demo_api ''mbx-7'' ''user4'' [''shared_mailbox_owner''] ''all'']"
  by (simp add: demo_entries_def ensure_roles_valid_def dedup_def owner_role_def sender_role_def
      or_else_def Let_def)

theorem assignment_tally_witness:
  "prepare demo_env demo_world =
     (Inr (demo_api, None, ''box@example.org'', ''Box'', ''shared''), prepared_world) \<and>
   create_shared_mailbox demo_repr demo_net demo_api ''box@example.org'' ''Box'' ''shared''
     prepared_world = (Inr ''mbx-7'', created_world) \<and>
   ask_actors_path (emit HeaderAssign (emit (MailboxCreated ''mbx-7'') created_world)) =
     (Inr ''actors.csv'', path_world) \<and>
   parse_actors_csv demo_fs ''actors.csv'' path_world = (Inr demo_entries, parsed_world) \<and>
   resolve_global_notify None parsed_world = Some (Inr ''all'', resolved_world) \<and>
   (\<exists>w6. main demo_repr demo_env demo_fs demo_net demo_world =
           Some (Inr (), emit Closing (emit (Tally 2 1) (emit HeaderSummary w6))) \<and>
         sent w6 =
           [create_request demo_api ''box@example.org'' ''Box'' ''shared'',
            set_request demo_api ''mbx-7'' ''user1'' [''shared_mailbox_sender''] ''all'',
            set_request demo_api ''mbx-7'' ''user2''
              [''reader'', ''editor'', ''shared_mailbox_sender''] ''none'',
            set_request demo_api ''mbx-7'' ''user4'' [''shared_mailbox_owner''] ''all''])"
proof -
  note ex = assignment_tally [where nt = demo_net and rp = demo_repr and fs = demo_fs,
      OF demo_prepare demo_create demo_path demo_parse_full demo_resolve]
  from ex obtain ok fail w6 where
    m: "main demo_repr demo_env demo_fs demo_net demo_world =
        Some (Inr (), emit Closing (emit (Tally ok fail) (emit HeaderSummary w6)))"
    and s: "sent w6 = sent resolved_world @
        map (\<lambda>(a, rs, pn). set_request demo_api ''mbx-7'' a
               (fst (ensure_roles_valid rs resolved_world)) (or_else pn ''all'')) demo_entries"
    and o: "ok = length (filter outcome_ok (answers demo_net (length (sent resolved_world))
        (map (\<lambda>(a, rs, pn). set_request demo_api ''mbx-7'' a
               (fst (ensure_roles_valid rs resolved_world)) (or_else pn ''all'')) demo_entries)))"
    and f: "fail = length (filter (\<lambda>a. \<not> outcome_ok a) (answers demo_net (length (sent resolved_world))
        (map (\<lambda>(a, rs, pn). set_request demo_api ''mbx-7'' a
               (fst (ensure_roles_valid rs resolved_world)) (or_else pn ''all'')) demo_entries)))"
    by (elim exE conjE) (rule that; assumption)
  have l: "length (sent resolved_world) = 1"
    by (simp add: resolved_world_def parsed_world_def path_world_def)
  have ok: "ok = 2"
    unfolding o demo_requests l
    by (simp add: demo_net_def outcome_ok_def granted_def refused_def)
  have fail: "fail = 1"
    unfolding f demo_requests l
    by (simp add: demo_net_def outcome_ok_def granted_def refused_def)
  have s': "sent w6 =
           [create_request demo_api ''box@example.org'' ''Box'' ''shared'',
            set_request demo_api ''mbx-7'' ''user1'' [''shared_mailbox_sender''] ''all'',
            set_request demo_api ''mbx-7'' ''user2''
              [''reader'', ''editor'', ''shared_mailbox_sender''] ''none'',
            set_request demo_api ''mbx-7'' ''user4'' [''shared_mailbox_owner''] ''all'']"
    unfolding s demo_requests
    by (simp add: resolved_world_def parsed_world_def path_world_def)
  have fin: "main demo_repr demo_env demo_fs demo_net demo_world =
           Some (Inr (), emit Closing (emit (Tally 2 1) (emit HeaderSummary w6)))"
    using m unfolding ok fail .
  show ?thesis
    apply (intro conjI)
         apply (rule demo_prepare)
        apply (rule demo_create)
       apply (rule demo_path)
      apply (rule demo_parse_full)
     apply (rule demo_resolve)
    apply (rule exI [of _ w6])
    apply (rule conjI)
     apply (rule fin)
    apply (rule s')
    done
qed

section \<open>Notification\<close>

lemma resolve_config:
  "load_env env w0 = (Inr (token, org, Some v), w1) \<Longrightarrow>
   v \<in> VALID_NOTIFY \<and> resolve_global_notify (Some v) w = Some (Inr v, w)"
  using load_env_notify [of env w0 token org v w1]
  by (simp add: resolve_global_notify_def truthy_opt_def or_else_def)

lemma resolve_prompts:
  assumes bad: "\<forall>i<k. \<exists>l. stdin w !! i = Line l \<and> notify_answer l \<notin> VALID_NOTIFY"
    and good: "stdin w !! k = Line a" "notify_answer a \<in> VALID_NOTIFY"
  shows "\<exists>w'. resolve_global_notify None w = Some (Inr (notify_answer a), w') \<and>
              stdin w' = sdrop (Suc k) (stdin w)"
proof -
  let ?w = "emit NotifyHelp w"
  have bad': "\<forall>i<k. \<exists>l. stdin ?w !! i = Line l \<and> notify_answer l \<notin> VALID_NOTIFY"
    using bad by simp
  have good': "stdin ?w !! k = Line a"
    using good(1) by simp
  from notify_loop_reaches [OF bad' good' good(2)]
  obtain w' where "notify_loop ?w = Some (Inr (notify_answer a), w')"
    "stdin w' = sdrop (Suc k) (stdin ?w)"
    by blast
  then show ?thesis
    by (simp add: resolve_global_notify_def truthy_opt_def)
qed

lemma effective_notify:
  assumes cfg: "load_env env w0 = (Inr (token, org, en), w1)"
    and res: "resolve_global_notify en w = Some (Inr g, w')"
    and present: "fs path = Some lines"
    and parsed: "fst (parse_actors_csv fs path w2) = Inr entries"
  shows "g \<in> VALID_NOTIFY \<and>
      (\<forall>(a, rs, pn) \<in> set entries.
          or_else pn g = (case pn of Some v \<Rightarrow> v | None \<Rightarrow> g) \<and> or_else pn g \<in> VALID_NOTIFY) \<and>
      sent (snd (assign_loop nt api mid g entries ok fail w3)) =
        sent w3 @ map (\<lambda>(a, rs, pn).
          set_request api mid a (fst (ensure_roles_valid rs w3)) (or_else pn g)) entries \<and>
      (\<forall>(a, rs, pn) \<in> set entries.
          params (set_request api mid a (fst (ensure_roles_valid rs w3)) (or_else pn g)) =
            [(''actorId'', a), (''notify'', or_else pn g)])"
proof -
  have en: "en = None \<or> (\<exists>v. en = Some v \<and> v \<in> VALID_NOTIFY)"
  proof (cases en)
    case None
    then show ?thesis by simp
  next
    case (Some v)
    with cfg load_env_notify [of env w0 token org v w1] show ?thesis by simp
  qed
  have g: "g \<in> VALID_NOTIFY"
    using res en by (rule resolve_valid)
  have entries: "entries = map row_entry (filter accepted lines)"
    using parsed present parse_actors_csv_result [of fs path lines w2]
    by (simp split: if_splits)
  have each: "or_else pn g = (case pn of Some v \<Rightarrow> v | None \<Rightarrow> g) \<and> or_else pn g \<in> VALID_NOTIFY"
    if "(a, rs, pn) \<in> set entries" for a rs pn
  proof (cases pn)
    case None
    with g show ?thesis by (simp add: or_else_def)
  next
    case (Some v)
    from that obtain l where "row_entry l = (a, rs, pn)"
      unfolding entries by auto
    with Some have "v \<in> VALID_NOTIFY"
      using row_entry_notify [of l a rs v] by simp
    moreover from this have "v \<noteq> []"
      using empty_not_valid by auto
    ultimately show ?thesis
      using Some by (simp add: or_else_def)
  qed
  obtain ok' fail' wf where loop:
    "assign_loop nt api mid g entries ok fail w3 = ((ok', fail'), wf)"
    by (metis prod.collapse)
  have canon: "map (\<lambda>(a, rs, pn).
        set_request api mid a (fst (ensure_roles_valid rs world0)) (or_else pn g)) entries =
      map (\<lambda>(a, rs, pn).
        set_request api mid a (fst (ensure_roles_valid rs w3)) (or_else pn g)) entries"
    using ensure_roles_valid_any [of _ world0 w3] by simp
  have sent: "sent (snd (assign_loop nt api mid g entries ok fail w3)) =
        sent w3 @ map (\<lambda>(a, rs, pn).
          set_request api mid a (fst (ensure_roles_valid rs w3)) (or_else pn g)) entries"
    using assign_loop_closed [OF loop] unfolding canon by (simp add: loop)
  have prm: "params (set_request api mid a rs' n) = [(''actorId'', a), (''notify'', n)]"
    for a rs' n
    by (simp add: set_request_def)
  from g each sent prm show ?thesis
    by (intro conjI ballI) auto
qed

text \<open>
  C4. A notification value loaded from the configuration is one of the three literals and
  is the session default, with no prompt. Without one, the run prompts: after \<open>k\<close> answers
  that are not a literal, an answer that is one (nothing typed counting as \<open>all\<close>, upper
  case as lower case) ends the loop and is the default. With the default \<open>g\<close> so obtained
  and the entries of a parsed file, the value sent for an entry is its own override when it
  has one and \<open>g\<close> otherwise, it is one of the three literals, and it is the \<open>notify\<close>
  parameter of the request sent for that entry.
\<close>

theorem notify_resolution:
  "(load_env env wi = (Inr (token, org, Some v), wj) \<longrightarrow>
       v \<in> VALID_NOTIFY \<and> resolve_global_notify (Some v) w = Some (Inr v, w)) \<and>
   ((\<forall>i<k. \<exists>l. stdin w !! i = Line l \<and> notify_answer l \<notin> VALID_NOTIFY) \<and>
     stdin w !! k = Line a \<and> notify_answer a \<in> VALID_NOTIFY \<longrightarrow>
       (\<exists>w'. resolve_global_notify None w = Some (Inr (notify_answer a), w') \<and>
             stdin w' = sdrop (Suc k) (stdin w))) \<and>
   notify_answer [] = ''all'' \<and>
   (load_env env wi = (Inr (token, org, en), wj) \<and>
    resolve_global_notify en w = Some (Inr g, w') \<and>
    fs path = Some lines \<and> fst (parse_actors_csv fs path wp) = Inr entries \<longrightarrow>
      g \<in> VALID_NOTIFY \<and>
      (\<forall>(a, rs, pn) \<in> set entries.
          or_else pn g = (case pn of Some v \<Rightarrow> v | None \<Rightarrow> g) \<and> or_else pn g \<in> VALID_NOTIFY) \<and>
      sent (snd (assign_loop nt api mid g entries ok fail wq)) =
        sent wq @ map (\<lambda>(a, rs, pn).
          set_request api mid a (fst (ensure_roles_valid rs wq)) (or_else pn g)) entries \<and>
      (\<forall>(a, rs, pn) \<in> set entries.
          params (set_request api mid a (fst (ensure_roles_valid rs wq)) (or_else pn g)) =
            [(''actorId'', a), (''notify'', or_else pn g)]))"
proof (intro conjI impI)
  assume "load_env env wi = (Inr (token, org, Some v), wj)"
  from resolve_config [OF this, of w]
  show "v \<in> VALID_NOTIFY" and "resolve_global_notify (Some v) w = Some (Inr v, w)"
    by simp_all
next
  assume "(\<forall>i<k. \<exists>l. stdin w !! i = Line l \<and> notify_answer l \<notin> VALID_NOTIFY) \<and>
     stdin w !! k = Line a \<and> notify_answer a \<in> VALID_NOTIFY"
  then show "\<exists>w'. resolve_global_notify None w = Some (Inr (notify_answer a), w') \<and>
             stdin w' = sdrop (Suc k) (stdin w)"
    using resolve_prompts [of k w a] by blast
next
  show "notify_answer [] = ''all''" by (rule answer_blank)
next
  assume h: "load_env env wi = (Inr (token, org, en), wj) \<and>
    resolve_global_notify en w = Some (Inr g, w') \<and>
    fs path = Some lines \<and> fst (parse_actors_csv fs path wp) = Inr entries"
  note e = effective_notify [of env wi token org en wj w g w' fs path lines wp entries
      nt api mid ok fail wq]
  from h e show "g \<in> VALID_NOTIFY" by blast
  from h e show "\<forall>(a, rs, pn) \<in> set entries.
          or_else pn g = (case pn of Some v \<Rightarrow> v | None \<Rightarrow> g) \<and> or_else pn g \<in> VALID_NOTIFY"
    by blast
  from h e show "sent (snd (assign_loop nt api mid g entries ok fail wq)) =
        sent wq @ map (\<lambda>(a, rs, pn).
          set_request api mid a (fst (ensure_roles_valid rs wq)) (or_else pn g)) entries"
    by blast
  from h e show "\<forall>(a, rs, pn) \<in> set entries.
          params (set_request api mid a (fst (ensure_roles_valid rs wq)) (or_else pn g)) =
            [(''actorId'', a), (''notify'', or_else pn g)]"
    by blast
qed

lemma notify_env_loaded:
  "load_env notify_env world0 = (Inr (''t0ken'', ''42'', Some ''none''), world0)"
  by (simp add: load_env_def getenv_def notify_env_def text_defs truthy_opt_def or_else_def Let_def)

lemma demo_env_loaded:
  "load_env demo_env world0 = (Inr (''t0ken'', ''42'', None), world0)"
  by (simp add: load_env_def getenv_def demo_env_def text_defs truthy_opt_def or_else_def Let_def)

theorem notify_resolution_witness:
  "load_env notify_env world0 = (Inr (''t0ken'', ''42'', Some ''none''), world0) \<and>
   resolve_global_notify (Some ''none'') parsed_world = Some (Inr ''none'', parsed_world) \<and>
   stdin parsed_world !! 0 = Line ''bogus'' \<and> notify_answer ''bogus'' \<notin> VALID_NOTIFY \<and>
   stdin parsed_world !! Suc 0 = Line [] \<and> notify_answer [] \<in> VALID_NOTIFY \<and>
   (\<exists>w'. resolve_global_notify None parsed_world = Some (Inr (notify_answer []), w') \<and>
         stdin w' = sdrop (Suc (Suc 0)) (stdin parsed_world)) \<and>
   load_env demo_env world0 = (Inr (''t0ken'', ''42'', None), world0) \<and>
   resolve_global_notify None parsed_world = Some (Inr ''all'', resolved_world) \<and>
   demo_fs ''actors.csv'' = Some demo_lines \<and>
   fst (parse_actors_csv demo_fs ''actors.csv'' world0) = Inr demo_entries \<and>
   ''all'' \<in> VALID_NOTIFY \<and>
   sent (snd (assign_loop demo_net demo_api ''mbx-7'' ''all'' demo_entries 0 0 resolved_world)) =
     [create_request demo_api ''box@example.org'' ''Box'' ''shared'',
      set_request demo_api ''mbx-7'' ''user1'' [''shared_mailbox_sender''] ''all'',
      set_request demo_api ''mbx-7'' ''user2''
        [''reader'', ''editor'', ''shared_mailbox_sender''] ''none'',
      set_request demo_api ''mbx-7'' ''user4'' [''shared_mailbox_owner''] ''all'']"
proof -
  note t1 = notify_resolution [where env = notify_env and wi = world0 and token = "''t0ken''"
      and org = "''42''" and v = "''none''" and wj = world0 and w = parsed_world]
  have c1: "resolve_global_notify (Some ''none'') parsed_world = Some (Inr ''none'', parsed_world)"
    by (rule t1 [THEN conjunct1, THEN mp, OF notify_env_loaded, THEN conjunct2])
  note t2 = notify_resolution [where env = demo_env and wi = world0 and token = "''t0ken''"
      and org = "''42''" and en = None and wj = world0 and w = parsed_world and k = "Suc 0"
      and a = "[]" and g = "''all''" and w' = resolved_world and fs = demo_fs
      and path = "''actors.csv''" and lines = demo_lines and wp = world0
      and entries = demo_entries and nt = demo_net and api = demo_api and mid = "''mbx-7''"
      and ok = 0 and fail = 0 and wq = resolved_world]
  have i0: "stdin parsed_world !! 0 = Line ''bogus''"
    and i1: "stdin parsed_world !! Suc 0 = Line []"
    by (simp_all add: parsed_world_def path_world_def)
  have v: "notify_answer [] \<in> VALID_NOTIFY"
    by (simp add: answer_blank all_valid)
  have h2: "(\<forall>i<Suc 0. \<exists>l. stdin parsed_world !! i = Line l \<and> notify_answer l \<notin> VALID_NOTIFY) \<and>
     stdin parsed_world !! Suc 0 = Line [] \<and> notify_answer [] \<in> VALID_NOTIFY"
    using i0 i1 v answer_bogus by simp
  have c2: "\<exists>w'. resolve_global_notify None parsed_world = Some (Inr (notify_answer []), w') \<and>
         stdin w' = sdrop (Suc (Suc 0)) (stdin parsed_world)"
    by (rule t2 [THEN conjunct2, THEN conjunct1, THEN mp, OF h2])
  have h4: "load_env demo_env world0 = (Inr (''t0ken'', ''42'', None), world0) \<and>
    resolve_global_notify None parsed_world = Some (Inr ''all'', resolved_world) \<and>
    demo_fs ''actors.csv'' = Some demo_lines \<and>
    fst (parse_actors_csv demo_fs ''actors.csv'' world0) = Inr demo_entries"
    using demo_env_loaded demo_resolve demo_file demo_parse by simp
  note c4 = t2 [THEN conjunct2, THEN conjunct2, THEN conjunct2, THEN mp, OF h4]
  have g: "''all'' \<in> VALID_NOTIFY"
    by (rule c4 [THEN conjunct1])
  have "sent (snd (assign_loop demo_net demo_api ''mbx-7'' ''all'' demo_entries 0 0 resolved_world)) =
        sent resolved_world @ map (\<lambda>(a, rs, pn).
          set_request demo_api ''mbx-7'' a (fst (ensure_roles_valid rs resolved_world))
            (or_else pn ''all'')) demo_entries"
    by (rule c4 [THEN conjunct2, THEN conjunct2, THEN conjunct1])
  then have s: "sent (snd (assign_loop demo_net demo_api ''mbx-7'' ''all'' demo_entries 0 0 resolved_world)) =
     [create_request demo_api ''box@example.org'' ''Box'' ''shared'',
      set_request demo_api ''mbx-7'' ''user1'' [''shared_mailbox_sender''] ''all'',
      set_request demo_api ''mbx-7'' ''user2''
        [''reader'', ''editor'', ''shared_mailbox_sender''] ''none'',
      set_request demo_api ''mbx-7'' ''user4'' [''shared_mailbox_owner''] ''all'']"
    unfolding demo_requests
    by (simp add: resolved_world_def parsed_world_def path_world_def)
  show ?thesis
    apply (intro conjI)
                apply (rule notify_env_loaded)
               apply (rule c1)
              apply (rule i0)
             apply (rule answer_bogus)
            apply (rule i1)
           apply (rule v)
          apply (rule c2)
         apply (rule demo_env_loaded)
        apply (rule demo_resolve)
       apply (rule demo_file)
      apply (rule demo_parse)
     apply (rule g)
    apply (rule s)
    done
qed

end
